theory Spec2Isabelle
  imports Complex_Main "HOL-Library.Sublist" "HOL-Library.Multiset"
begin

section \<open>Python strings and the library calls of \<^verbatim>\<open>video_trans_sum.py\<close>\<close>

text \<open>
  A Python \<^verbatim>\<open>str\<close> is modelled as a \<^typ>\<open>string\<close>; a \<^typ>\<open>char\<close> stands for a code
  point below 256. Exceptions are values of \<open>exn\<close>; a call that may raise returns
  \<open>exn + 'a\<close>, with \<open>Inl\<close> for the exception.
\<close>

datatype exn =
    ValueError string
  | IndexError
  | ZeroDivisionError
  | External string

type_synonym path = string

text \<open>
  \<^verbatim>\<open>sep in s\<close> and \<^verbatim>\<open>s.split(sep)\<close>. \<open>partition_first sep s\<close> cuts \<open>s\<close> at the leftmost
  occurrence of \<open>sep\<close>; \<open>py_split\<close> repeats it on the remainder, so the occurrences
  are found left to right and do not overlap. The only separator the program uses is
  the literal \<^verbatim>\<open>'_chunk_'\<close>; Python rejects an empty separator, the model returns
  the string unsplit there.
\<close>

fun partition_first :: "string \<Rightarrow> string \<Rightarrow> (string \<times> string) option" where
  "partition_first sep [] = (if sep = [] then Some ([], []) else None)"
| "partition_first sep (c # cs) =
     (if prefix sep (c # cs) then Some ([], drop (length sep) (c # cs))
      else (case partition_first sep cs of
              None \<Rightarrow> None
            | Some (a, b) \<Rightarrow> Some (c # a, b)))"

definition py_in :: "string \<Rightarrow> string \<Rightarrow> bool" where
  "py_in sep s \<longleftrightarrow> partition_first sep s \<noteq> None"

lemma partition_first_length:
  "partition_first sep s = Some (a, b) \<Longrightarrow> length a + length sep + length b = length s"
proof (induction s arbitrary: a)
  case Nil
  then show ?case by (simp split: if_splits)
next
  case (Cons c cs)
  show ?case
  proof (cases "prefix sep (c # cs)")
    case True
    with Cons.prems have "a = []" "b = drop (length sep) (c # cs)" by simp_all
    moreover from True have "length sep \<le> length (c # cs)" by (rule prefix_length_le)
    ultimately show ?thesis by simp
  next
    case False
    with Cons.prems obtain a' where "partition_first sep cs = Some (a', b)" "a = c # a'"
      by (auto split: option.splits)
    with Cons.IH show ?thesis by fastforce
  qed
qed

function py_split :: "string \<Rightarrow> string \<Rightarrow> string list" where
  "py_split sep s =
     (if sep = [] then [s]
      else (case partition_first sep s of
              None \<Rightarrow> [s]
            | Some (a, b) \<Rightarrow> a # py_split sep b))"
  by pat_completeness auto
termination
proof (relation "measure (\<lambda>(sep, s). length s)")
  show "wf (measure (\<lambda>(sep, s). length s))" by simp
next
  fix sep s :: string and x2 a b
  assume "sep \<noteq> []" "partition_first sep s = Some x2" "(a, b) = x2"
  then have "length a + length sep + length b = length s"
    by (metis partition_first_length)
  with \<open>sep \<noteq> []\<close> show "((sep, b), (sep, s)) \<in> measure (\<lambda>(sep, s). length s)"
    by (cases sep) auto
qed

declare py_split.simps [simp del]

text \<open>
  \<^verbatim>\<open>sep.join(xs)\<close>.
\<close>

fun py_join :: "string \<Rightarrow> string list \<Rightarrow> string" where
  "py_join sep [] = []"
| "py_join sep [x] = x"
| "py_join sep (x # y # ys) = x @ sep @ py_join sep (y # ys)"

text \<open>
  \<^verbatim>\<open>int(s)\<close> in base 10, as CPython parses a \<^verbatim>\<open>str\<close>: white space is skipped at both
  ends (the ASCII characters 9 to 13 and 32; of the code points 128 to 255, NEL and
  NBSP), one sign may come first, and the digits may be grouped by single
  underscores. Anything else raises \<^verbatim>\<open>ValueError\<close>, here \<open>None\<close>. The interpreter's
  limit on the number of digits (4300 by default) is beyond what a file name holds
  and is not modelled.
\<close>

definition is_space :: "char \<Rightarrow> bool" where
  "is_space c \<longleftrightarrow>
     c \<in> set [CHR 0x09, CHR 0x0A, CHR 0x0B, CHR 0x0C, CHR 0x0D, CHR 0x20, CHR 0x85, CHR 0xA0]"

definition is_digit :: "char \<Rightarrow> bool" where
  "is_digit c \<longleftrightarrow> c \<in> set ''0123456789''"

definition digit_val :: "char \<Rightarrow> nat" where
  "digit_val c = of_char c - 48"

definition dec_value :: "string \<Rightarrow> nat" where
  "dec_value ds = foldl (\<lambda>acc c. 10 * acc + digit_val c) 0 ds"

fun well_grouped :: "string \<Rightarrow> bool" where
  "well_grouped [] = False"
| "well_grouped [c] = is_digit c"
| "well_grouped (c # d # cs) =
     (if is_digit c
      then (if d = CHR ''_'' then well_grouped cs else well_grouped (d # cs))
      else False)"

definition strip_sign :: "string \<Rightarrow> bool \<times> string" where
  "strip_sign t =
     (case t of
        [] \<Rightarrow> (False, [])
      | c # r \<Rightarrow>
          if c = CHR ''-'' then (True, r)
          else if c = CHR ''+'' then (False, r)
          else (False, t))"

definition py_int :: "string \<Rightarrow> int option" where
  "py_int s =
     (let (neg, u) = strip_sign (dropWhile is_space s);
          body = takeWhile (\<lambda>c. is_digit c \<or> c = CHR ''_'') u;
          rest = dropWhile (\<lambda>c. is_digit c \<or> c = CHR ''_'') u
      in if well_grouped body \<and> list_all is_space rest
         then Some ((if neg then - 1 else 1) * int (dec_value (filter is_digit body)))
         else None)"

text \<open>
  \<^verbatim>\<open>str(i)\<close> for the non-negative index that \<^verbatim>\<open>enumerate\<close> counts, as the f-string
  formats it into a chunk's file name.
\<close>

definition digit_char :: "nat \<Rightarrow> char" where
  "digit_char d = ''0123456789'' ! d"

fun py_str :: "nat \<Rightarrow> string" where
  "py_str n = (if n < 10 then [digit_char n] else py_str (n div 10) @ [digit_char (n mod 10)])"

declare py_str.simps [simp del]

text \<open>
  \<^verbatim>\<open>sorted(xs, key=f)\<close>: the key of every element is computed first, in list order,
  and the first exception of a key ends the call; the sort is stable. The elements
  travel with their keys, and \<^const>\<open>sort_key\<close> is the stable insertion sort of the
  library, which orders a list as every stable sort does.
\<close>

fun keys_of :: "('a \<Rightarrow> exn + 'k) \<Rightarrow> 'a list \<Rightarrow> exn + 'k list" where
  "keys_of f [] = Inr []"
| "keys_of f (x # xs) =
     (case f x of
        Inl e \<Rightarrow> Inl e
      | Inr k \<Rightarrow> (case keys_of f xs of Inl e \<Rightarrow> Inl e | Inr ks \<Rightarrow> Inr (k # ks)))"

definition py_sorted :: "('a \<Rightarrow> exn + 'k::linorder) \<Rightarrow> 'a list \<Rightarrow> exn + 'a list" where
  "py_sorted f xs =
     (case keys_of f xs of
        Inl e \<Rightarrow> Inl e
      | Inr ks \<Rightarrow> Inr (map snd (sort_key fst (zip ks xs))))"

text \<open>
  \<^verbatim>\<open>os.path\<close> on POSIX. \<open>basename\<close> is what follows the last slash. \<open>splitext\<close> cuts
  at the last dot of the base name, unless only dots come before it there.
  \<open>path_join\<close> is \<^verbatim>\<open>os.path.join\<close> of two components, \<open>dirname\<close> what precedes the
  last slash, without its trailing slashes.
\<close>

definition basename :: "path \<Rightarrow> string" where
  "basename p = rev (takeWhile (\<lambda>c. c \<noteq> CHR ''/'') (rev p))"

definition splitext :: "path \<Rightarrow> string \<times> string" where
  "splitext p =
     (let b = basename p;
          e = rev (takeWhile (\<lambda>c. c \<noteq> CHR ''.'') (rev b));
          stem = take (length b - (length e + 1)) b
      in if CHR ''.'' \<in> set b \<and> (\<exists>c \<in> set stem. c \<noteq> CHR ''.'')
         then (take (length p - (length e + 1)) p, CHR ''.'' # e)
         else (p, []))"

definition path_join :: "path \<Rightarrow> path \<Rightarrow> path" where
  "path_join a b =
     (if prefix ''/'' b then b
      else if a = [] \<or> suffix ''/'' a then a @ b
      else a @ ''/'' @ b)"

definition dirname :: "path \<Rightarrow> path" where
  "dirname p =
     (let head = take (length p - length (basename p)) p
      in if list_all (\<lambda>c. c = CHR ''/'') head then head
         else rev (dropWhile (\<lambda>c. c = CHR ''/'') (rev head)))"

text \<open>
  \<^verbatim>\<open>s.lower()\<close>, on the ASCII letters: no other code point below 256 becomes a
  character of the extensions that the program compares with.
\<close>

definition lower_char :: "char \<Rightarrow> char" where
  "lower_char c =
     (case map_of (zip ''ABCDEFGHIJKLMNOPQRSTUVWXYZ'' ''abcdefghijklmnopqrstuvwxyz'') c of
        None \<Rightarrow> c
      | Some l \<Rightarrow> l)"

definition lower :: "string \<Rightarrow> string" where
  "lower s = map lower_char s"

text \<open>
  The file system is the set of the paths that exist. \<^verbatim>\<open>os.makedirs\<close> (with
  \<^verbatim>\<open>exist_ok=True\<close>) and the export of a file add a path; a call that adds a path fails
  only where its path argument makes it fail. \<^verbatim>\<open>os.remove\<close> takes a path away and
  \<^verbatim>\<open>shutil.rmtree\<close> takes a directory away with everything below it: the four functions
  here are what these calls do when they succeed. A removal can also raise on a path
  that exists (a directory that is a symbolic link, a file that may not be deleted);
  when it does is a matter of the world, see \<open>remove_raises\<close> and \<open>rmtree_raises\<close> below.
\<close>

type_synonym fs = "path set"

definition makedirs :: "path \<Rightarrow> fs \<Rightarrow> exn + fs" where
  "makedirs p files =
     (if p = [] then Inl (External ''FileNotFoundError'') else Inr (insert p files))"

definition export :: "path \<Rightarrow> fs \<Rightarrow> fs" where
  "export p files = insert p files"

definition remove_file :: "path \<Rightarrow> fs \<Rightarrow> fs" where
  "remove_file p files = files - {p}"

definition rmtree :: "path \<Rightarrow> fs \<Rightarrow> fs" where
  "rmtree p files = Set.filter (\<lambda>q. q \<noteq> p \<and> \<not> prefix (p @ ''/'') q) files"

text \<open>
  A Python \<^verbatim>\<open>float\<close> is an IEEE 754 binary64 number, kept here as the rational that it
  denotes. An operation on floats returns its exact result rounded to the nearest
  number with a significand of 53 bits, a tie going to the even significand:
  \<open>binade x\<close> is the exponent \<open>e\<close> with \<open>2^e \<le> x < 2^(e + 1)\<close>, read off the length in bits of
  the integer part of \<open>x\<close> (under 1, of its reciprocal), and the result is a multiple of
  \<open>2^(e - 52)\<close>. Infinities, NaN and the subnormal numbers are not represented: \<^verbatim>\<open>len()\<close>
  returns less than \<open>2^63\<close>, and no quotient or product that the program forms of such
  lengths leaves the range of the normal numbers.
\<close>

fun bit_length :: "nat \<Rightarrow> nat" where
  "bit_length n = (if n = 0 then 0 else Suc (bit_length (n div 2)))"

declare bit_length.simps [simp del]

definition pow2 :: "int \<Rightarrow> rat" where
  "pow2 k = (if 0 \<le> k then 2 ^ nat k else 1 / 2 ^ nat (- k))"

definition binade :: "rat \<Rightarrow> int" where
  "binade x = (if 1 \<le> x then int (bit_length (nat \<lfloor>x\<rfloor>)) - 1
               else - int (bit_length (nat (\<lceil>1 / x\<rceil> - 1))))"

definition round_half_even :: "rat \<Rightarrow> int" where
  "round_half_even x =
     (let n = \<lfloor>x\<rfloor>; r = x - of_int n
      in if r < 1 / 2 then n else if 1 / 2 < r then n + 1 else if even n then n else n + 1)"

definition to_double :: "rat \<Rightarrow> rat" where
  "to_double x =
     (if x = 0 then 0
      else (let ulp = pow2 (binade \<bar>x\<bar> - 52)
            in sgn x * of_int (round_half_even (\<bar>x\<bar> / ulp)) * ulp))"

text \<open>
  \<^verbatim>\<open>float(n)\<close>, also where an \<^verbatim>\<open>int\<close> meets a \<^verbatim>\<open>float\<close> in an operation; \<^verbatim>\<open>x / y\<close> and
  \<^verbatim>\<open>x * y\<close> on floats; and \<^verbatim>\<open>a / b\<close> on two \<^verbatim>\<open>int\<close>s, which is the correctly rounded
  quotient. The callers test the divisor for zero.
\<close>

definition py_float :: "int \<Rightarrow> rat" where
  "py_float n = to_double (of_int n)"

definition float_div :: "rat \<Rightarrow> rat \<Rightarrow> rat" where
  "float_div x y = to_double (x / y)"

definition float_mul :: "rat \<Rightarrow> rat \<Rightarrow> rat" where
  "float_mul x y = to_double (x * y)"

definition int_true_div :: "int \<Rightarrow> int \<Rightarrow> rat" where
  "int_true_div a b = to_double (of_int a / of_int b)"

section \<open>Data of the pipeline\<close>

text \<open>
  The dictionary that \<^verbatim>\<open>process_audio_chunk\<close> builds for one chunk; \<open>None\<close> is Python's
  \<^verbatim>\<open>None\<close>.
\<close>

record chunk_result =
  chunk_id :: string
  file_name :: string
  error :: "exn option"
  transcript :: "string option"

text \<open>
  A decoded \<^verbatim>\<open>AudioSegment\<close>, as far as the program looks at it: \<^verbatim>\<open>len(audio)\<close>, its
  duration in milliseconds, and \<^verbatim>\<open>len(audio.raw_data)\<close>, its size in bytes.
\<close>

record audio =
  len_ms :: nat
  raw_size :: nat

text \<open>
  The chat-completion request body before \<^verbatim>\<open>json.dumps\<close>: the model name, the
  messages as pairs of role and content, and the temperature.
\<close>

record payload =
  model :: string
  messages :: "(string \<times> string) list"
  temperature :: rat

text \<open>
  The dictionaries that \<^verbatim>\<open>transcribe_and_summarize_video\<close> returns, one constructor
  for each \<^verbatim>\<open>return\<close> of the function; an exception that no handler of the function
  catches is \<open>Uncaught\<close>.
\<close>

datatype failure =
    DownloadFailed exn          \<comment> \<open>\<^verbatim>\<open>Failed to download from URL: ...\<close>\<close>
  | AudioExtractionFailed exn   \<comment> \<open>\<^verbatim>\<open>Audio extraction failed: ...\<close>\<close>
  | AudioConversionFailed exn   \<comment> \<open>\<^verbatim>\<open>Audio conversion failed: ...\<close>\<close>
  | NoChunks                    \<comment> \<open>\<^verbatim>\<open>Failed to split audio into chunks\<close>\<close>
  | AudioChunkingFailed exn     \<comment> \<open>\<^verbatim>\<open>Audio chunking failed: ...\<close>\<close>
  | NoTranscript                \<comment> \<open>\<^verbatim>\<open>No transcript was generated from any audio chunk\<close>\<close>
  | TranscriptMergingFailed exn \<comment> \<open>\<^verbatim>\<open>Transcript merging failed: ...\<close>\<close>
  | ApiKeyNotFound              \<comment> \<open>\<^verbatim>\<open>OpenAI API key not found in environment variables\<close>\<close>
  | SummarizationFailed exn     \<comment> \<open>\<^verbatim>\<open>Summarization failed: ...\<close>\<close>

datatype 'j outcome =
    Summary 'j                   \<comment> \<open>\<^verbatim>\<open>{"summary": summary_json}\<close>\<close>
  | Error failure                \<comment> \<open>\<^verbatim>\<open>{"error": message}\<close>\<close>
  | ParseError string            \<comment> \<open>\<^verbatim>\<open>{"error": "Failed to parse JSON summary", "raw_summary": text}\<close>\<close>
  | Uncaught exn

text \<open>
  The requests and file operations of a run, in the order one worker or the main
  thread makes them. The log of a whole run lists the workers one after the other;
  how the workers interleave is not represented.
\<close>

datatype event =
    Export path
  | Remove path
  | WhisperPost string path      \<comment> \<open>credential, uploaded file\<close>
  | ChatPost string payload      \<comment> \<open>credential, request body\<close>

text \<open>
  What the program cannot decide by itself: the process environment, the network, the
  decoder, the scheduler and the faults of the file system. \<open>finish_time\<close> orders the
  workers: \<^verbatim>\<open>as_completed\<close> yields the chunk that finishes first. \<open>json_loads\<close> is
  \<^verbatim>\<open>json.loads\<close>, \<open>None\<close> for its \<^verbatim>\<open>JSONDecodeError\<close>. \<open>remove_raises p = Some e\<close> says that
  \<^verbatim>\<open>os.remove(p)\<close> raises \<open>e\<close> on the existing file \<open>p\<close>, which stays.
  \<open>rmtree_raises p = Some left\<close> says that \<^verbatim>\<open>shutil.rmtree(p)\<close> raises on the existing
  directory \<open>p\<close>: the directory stays, and so do the paths below it for which \<open>left\<close>
  holds.
\<close>

datatype whisper_reply =
    WhisperRaises exn            \<comment> \<open>the request, or reading its answer, raises\<close>
  | WhisperError string          \<comment> \<open>the answer has an \<^verbatim>\<open>error\<close> member\<close>
  | WhisperText string           \<comment> \<open>the answer's \<^verbatim>\<open>text\<close>\<close>

datatype chat_reply =
    ChatRaises exn               \<comment> \<open>transport or HTTP error, or an answer of another shape\<close>
  | ChatContent string           \<comment> \<open>\<^verbatim>\<open>choices[0].message.content\<close>\<close>

record 'j world =
  getenv :: "string \<Rightarrow> string option"
  urlparse_path :: "string \<Rightarrow> exn + string"
  uuid8 :: string
  head_extension :: "string \<Rightarrow> exn + string option"
  download :: "string \<Rightarrow> path \<Rightarrow> exn option"
  guess_type :: "path \<Rightarrow> string option"
  ffmpeg :: "string list \<Rightarrow> exn option"
  load_audio :: "path \<Rightarrow> exn + audio"
  finish_time :: "nat \<Rightarrow> nat"
  whisper :: "string \<Rightarrow> path \<Rightarrow> whisper_reply"
  chat :: "string \<Rightarrow> payload \<Rightarrow> chat_reply"
  json_loads :: "string \<Rightarrow> 'j option"
  remove_raises :: "path \<Rightarrow> exn option"
  rmtree_raises :: "path \<Rightarrow> (path \<Rightarrow> bool) option"

section \<open>Transcript Assembler\<close>

text \<open>
  The key of the sort, lines 320 and 321:
  \<^verbatim>\<open>int(x['chunk_id'].split('_chunk_')[1]) if '_chunk_' in x['chunk_id'] else 0\<close>.
\<close>

definition delimiter :: string where
  "delimiter = ''_chunk_''"

definition sort_index :: "chunk_result \<Rightarrow> exn + int" where
  "sort_index x =
     (if py_in delimiter (chunk_id x)
      then (case py_split delimiter (chunk_id x) of
              _ # seg # _ \<Rightarrow>
                (case py_int seg of None \<Rightarrow> Inl (ValueError seg) | Some k \<Rightarrow> Inr k)
            | _ \<Rightarrow> Inl IndexError)
      else Inr 0)"

text \<open>
  Every chunk id of one input file starts with the base name of the file and the
  delimiter that the splitter appends. When the base name itself holds the delimiter,
  the element \<^verbatim>\<open>[1]\<close> of the split lies inside that common start: it is the
  \<open>index_segment\<close> of the name.
\<close>

definition index_segment :: "string \<Rightarrow> string" where
  "index_segment video_name = py_split delimiter (video_name @ delimiter) ! 1"

text \<open>
  \<^verbatim>\<open>[chunk['transcript'] for chunk in sorted_chunks if chunk['transcript']]\<close>: \<^verbatim>\<open>None\<close>
  and the empty string are false.
\<close>

fun truthy_transcripts :: "chunk_result list \<Rightarrow> string list" where
  "truthy_transcripts [] = []"
| "truthy_transcripts (c # cs) =
     (case transcript c of
        None \<Rightarrow> truthy_transcripts cs
      | Some t \<Rightarrow> if t = [] then truthy_transcripts cs else t # truthy_transcripts cs)"

text \<open>
  Step 4 of the function, lines 317 to 330: sort, join, and fail on an empty result.
\<close>

definition merge_transcripts :: "chunk_result list \<Rightarrow> failure + string" where
  "merge_transcripts chunks_results =
     (case py_sorted sort_index chunks_results of
        Inl e \<Rightarrow> Inl (TranscriptMergingFailed e)
      | Inr sorted_chunks \<Rightarrow>
          (let full_transcript = py_join '' '' (truthy_transcripts sorted_chunks)
           in if full_transcript = [] then Inl NoTranscript else Inr full_transcript))"

section \<open>Media Normalizer\<close>

text \<open>
  \<^verbatim>\<open>get_file_type\<close>, lines 52 to 81. \<open>guess\<close> is \<^verbatim>\<open>mimetypes.guess_type(file_path)[0]\<close>.
\<close>

datatype file_type = Video | Audio

definition video_extensions :: "string list" where
  "video_extensions = [''.mp4'', ''.avi'', ''.mov'', ''.mkv'', ''.webm'', ''.flv'']"

definition audio_extensions :: "string list" where
  "audio_extensions = [''.mp3'', ''.wav'', ''.ogg'', ''.m4a'', ''.flac'', ''.aac'']"

definition get_file_type :: "(path \<Rightarrow> string option) \<Rightarrow> path \<Rightarrow> file_type" where
  "get_file_type guess file_path =
     (let file_ext = lower (snd (splitext file_path))
      in if file_ext \<in> set video_extensions then Video
         else if file_ext \<in> set audio_extensions then Audio
         else (case guess file_path of
                 None \<Rightarrow> Video
               | Some mime_type \<Rightarrow>
                   if prefix ''video/'' mime_type then Video
                   else if prefix ''audio/'' mime_type then Audio
                   else Video))"

text \<open>
  The download of lines 108 to 132. The name of the local file comes from the path of
  the URL or, when that has no extension, from a random identifier and the content type
  that a \<^verbatim>\<open>HEAD\<close> request reports; \<open>download\<close> is \<^verbatim>\<open>download_file_from_url\<close>, whose
  failure leaves no file behind in the model.
\<close>

definition fetch :: "'j world \<Rightarrow> string \<Rightarrow> path \<Rightarrow> fs \<Rightarrow> (exn + path) \<times> fs" where
  "fetch w url tmp files =
     (case urlparse_path w url of
        Inl e \<Rightarrow> (Inl e, files)
      | Inr url_path \<Rightarrow>
          (let base = basename url_path;
               named =
                 (if base = [] \<or> CHR ''.'' \<notin> set base
                  then (case head_extension w url of
                          Inl e \<Rightarrow> Inl e
                        | Inr extension \<Rightarrow>
                            Inr (''downloaded_file_'' @ uuid8 w @
                                 (case extension of
                                    None \<Rightarrow> ''.mp4''
                                  | Some x \<Rightarrow> if x = [] then ''.mp4'' else x)))
                  else Inr base)
           in case named of
                Inl e \<Rightarrow> (Inl e, files)
              | Inr name \<Rightarrow>
                  (let download_path = path_join tmp name
                   in case download w url download_path of
                        Some e \<Rightarrow> (Inl e, files)
                      | None \<Rightarrow> (Inr download_path, export download_path files))))"

text \<open>
  Step 1, lines 146 to 188: a video goes through \<^verbatim>\<open>ffmpeg\<close>, an audio file that is no
  WAV file too, a WAV file is copied unless it already lies at the target path. The
  result is \<^verbatim>\<open>audio_path\<close>.
\<close>

definition normalize ::
  "'j world \<Rightarrow> path \<Rightarrow> string \<Rightarrow> path \<Rightarrow> fs \<Rightarrow> (failure + path) \<times> fs" where
  "normalize w source video_name tmp files =
     (let audio_path = path_join tmp (video_name @ ''.wav'')
      in if get_file_type (guess_type w) source = Video
         then (case makedirs (dirname audio_path) files of
                 Inl e \<Rightarrow> (Inl (AudioExtractionFailed e), files)
               | Inr files1 \<Rightarrow>
                   (case ffmpeg w [''ffmpeg'', ''-i'', source, ''-q:a'', ''0'', ''-map'', ''a'',
                                   ''-vn'', audio_path, ''-y''] of
                      Some e \<Rightarrow> (Inl (AudioExtractionFailed e), files1)
                    | None \<Rightarrow> (Inr audio_path, export audio_path files1)))
         else (case makedirs (dirname audio_path) files of
                 Inl e \<Rightarrow> (Inl (AudioConversionFailed e), files)
               | Inr files1 \<Rightarrow>
                   if \<not> suffix ''.wav'' (lower source)
                   then (case ffmpeg w [''ffmpeg'', ''-i'', source, audio_path, ''-y''] of
                           Some e \<Rightarrow> (Inl (AudioConversionFailed e), files1)
                         | None \<Rightarrow> (Inr audio_path, export audio_path files1))
                   else if source \<noteq> audio_path
                   then (if source \<in> files1
                         then (Inr audio_path, export audio_path files1)
                         else (Inl (AudioConversionFailed (External ''FileNotFoundError'')), files1))
                   else (Inr source, files1)))"

section \<open>Chunk Splitter\<close>

text \<open>
  \<^verbatim>\<open>range(start, stop, step)\<close>; a step of zero raises \<^verbatim>\<open>ValueError\<close>.
\<close>

function range_up :: "int \<Rightarrow> int \<Rightarrow> int \<Rightarrow> int list" where
  "range_up start stop step =
     (if 0 < step \<and> start < stop then start # range_up (start + step) stop step else [])"
  by pat_completeness auto
termination
  by (relation "measure (\<lambda>(start, stop, step). nat (stop - start))") auto

function range_down :: "int \<Rightarrow> int \<Rightarrow> int \<Rightarrow> int list" where
  "range_down start stop step =
     (if step < 0 \<and> stop < start then start # range_down (start + step) stop step else [])"
  by pat_completeness auto
termination
  by (relation "measure (\<lambda>(start, stop, step). nat (start - stop))") auto

declare range_up.simps [simp del] range_down.simps [simp del]

definition py_range :: "int \<Rightarrow> int \<Rightarrow> int \<Rightarrow> exn + int list" where
  "py_range start stop step =
     (if step = 0 then Inl (ValueError ''range() arg 3 must not be zero'')
      else if 0 < step then Inr (range_up start stop step)
      else Inr (range_down start stop step))"

text \<open>
  One exported chunk: its file and the part of the audio it holds,
  \<^verbatim>\<open>audio[start:start + chunk_length_ms]\<close>. A slice of an \<^verbatim>\<open>AudioSegment\<close> ends where the
  audio ends, so the window is given by its two ends in milliseconds.
\<close>

record audio_chunk =
  chunk_file :: path
  start_ms :: int
  end_ms :: int

definition slice :: "audio \<Rightarrow> int \<Rightarrow> int \<Rightarrow> int \<times> int" where
  "slice a start stop = (min start (int (len_ms a)), min stop (int (len_ms a)))"

definition chunk_file_name :: "string \<Rightarrow> nat \<Rightarrow> string" where
  "chunk_file_name video_name i = video_name @ ''_chunk_'' @ py_str i @ ''.wav''"

definition cut_chunk :: "audio \<Rightarrow> string \<Rightarrow> path \<Rightarrow> int \<Rightarrow> nat \<times> int \<Rightarrow> audio_chunk" where
  "cut_chunk a video_name chunks_dir chunk_length_ms = (\<lambda>(i, start).
     \<lparr>chunk_file = path_join chunks_dir (chunk_file_name video_name i),
      start_ms = fst (slice a start (start + chunk_length_ms)),
      end_ms = snd (slice a start (start + chunk_length_ms))\<rparr>)"

text \<open>
  Step 2, lines 190 to 217.
\<close>

definition split_audio ::
  "'j world \<Rightarrow> string \<Rightarrow> path \<Rightarrow> path \<Rightarrow> int \<Rightarrow> fs \<Rightarrow> (failure + audio_chunk list) \<times> fs" where
  "split_audio w video_name audio_path chunks_dir chunk_length_sec files =
     (case makedirs chunks_dir files of
        Inl e \<Rightarrow> (Inl (AudioChunkingFailed e), files)
      | Inr files1 \<Rightarrow>
          (case load_audio w audio_path of
             Inl e \<Rightarrow> (Inl (AudioChunkingFailed e), files1)
           | Inr a \<Rightarrow>
               (let chunk_length_ms = chunk_length_sec * 1000
                in case py_range 0 (int (len_ms a)) chunk_length_ms of
                     Inl e \<Rightarrow> (Inl (AudioChunkingFailed e), files1)
                   | Inr starts \<Rightarrow>
                       (let audio_chunks =
                              map (cut_chunk a video_name chunks_dir chunk_length_ms)
                                (enumerate 0 starts)
                        in if audio_chunks = [] then (Inl NoChunks, files1)
                           else (Inr audio_chunks,
                                 fold export (map chunk_file audio_chunks) files1)))))"

section \<open>Transcription Client\<close>

text \<open>
  \<^verbatim>\<open>transcribe_with_openai_whisper\<close>, lines 282 to 301, returns a pair: the decoded
  answer of the service and the transcript. Without a credential the answer is an
  error dictionary made on the spot and no request is sent.
\<close>

datatype response_json =
    ErrorJson string
  | TextJson string

definition truthy :: "string option \<Rightarrow> bool" where
  "truthy v \<longleftrightarrow> (case v of None \<Rightarrow> False | Some s \<Rightarrow> s \<noteq> [])"

definition transcribe_with_openai_whisper ::
  "'j world \<Rightarrow> path \<Rightarrow> (exn + response_json \<times> string) \<times> event list" where
  "transcribe_with_openai_whisper w file_path =
     (case getenv w ''OPENAI_API_KEY'' of
        None \<Rightarrow> (Inr (ErrorJson ''OpenAI API key not found in environment variables'', []), [])
      | Some api_key \<Rightarrow>
          if api_key = []
          then (Inr (ErrorJson ''OpenAI API key not found in environment variables'', []), [])
          else (case whisper w api_key file_path of
                  WhisperRaises e \<Rightarrow> (Inl e, [WhisperPost api_key file_path])
                | WhisperError m \<Rightarrow> (Inr (ErrorJson m, []), [WhisperPost api_key file_path])
                | WhisperText t \<Rightarrow> (Inr (TextJson t, t), [WhisperPost api_key file_path])))"

text \<open>
  \<^verbatim>\<open>make_chunks\<close> of pydub: \<^verbatim>\<open>ceil(len(audio) / float(chunk_length))\<close> slices
  \<^verbatim>\<open>audio[i * chunk_length:(i + 1) * chunk_length]\<close>, the quotient and the products in
  floating point. A slice ends where the audio ends; a window is given by its two ends
  in milliseconds.
\<close>

definition upload_limit :: nat where
  "upload_limit = 24 * 1024 * 1024"

definition make_chunks :: "audio \<Rightarrow> rat \<Rightarrow> (rat \<times> rat) list" where
  "make_chunks a chunk_length =
     (let number_of_chunks = \<lceil>float_div (py_float (int (len_ms a))) chunk_length\<rceil>
      in map (\<lambda>i. (min (float_mul (py_float (int i)) chunk_length) (of_nat (len_ms a)),
                    min (float_mul (py_float (int i + 1)) chunk_length) (of_nat (len_ms a))))
           [0 ..< nat number_of_chunks])"

definition sub_window_path :: "path \<Rightarrow> path \<Rightarrow> nat \<Rightarrow> path" where
  "sub_window_path tmp file_path i =
     path_join tmp (basename file_path @ ''_chunk_'' @ py_str i @ ''.wav'')"

text \<open>
  The loop of lines 261 to 269 over \<^verbatim>\<open>enumerate(chunks)\<close>, with the transcript so far,
  the file system and the log as its state. The answers go to \<^verbatim>\<open>response_list\<close>, which
  nothing reads. An exception of the upload or of \<^verbatim>\<open>os.remove\<close> ends the loop.
\<close>

fun transcribe_windows ::
  "'j world \<Rightarrow> path \<Rightarrow> path \<Rightarrow> (nat \<times> rat \<times> rat) list \<Rightarrow> string \<Rightarrow> fs \<times> event list
   \<Rightarrow> (exn + string) \<times> fs \<times> event list" where
  "transcribe_windows w tmp file_path [] so_far st = (Inr so_far, st)"
| "transcribe_windows w tmp file_path ((i, chunk) # rest) so_far (files, trace) =
     (let chunk_path = sub_window_path tmp file_path i;
          files1 = export chunk_path files;
          log1 = trace @ [Export chunk_path]
      in case transcribe_with_openai_whisper w chunk_path of
           (Inl e, posts) \<Rightarrow> (Inl e, files1, log1 @ posts)
         | (Inr (response, transcript_v1), posts) \<Rightarrow>
             (case remove_raises w chunk_path of
                Some e \<Rightarrow> (Inl e, files1, log1 @ posts)
              | None \<Rightarrow>
                  transcribe_windows w tmp file_path rest (so_far @ transcript_v1 @ '' '')
                    (remove_file chunk_path files1, log1 @ posts @ [Remove chunk_path])))"

text \<open>
  \<^verbatim>\<open>audio_to_text_single_call\<close>, lines 251 to 280: the dictionary it returns has either
  a \<^verbatim>\<open>transcript\<close> or an \<^verbatim>\<open>error\<close> member; the exception stands for its text.
\<close>

datatype client_response =
    TranscriptField string
  | ErrorField exn

definition audio_to_text_single_call ::
  "'j world \<Rightarrow> path \<Rightarrow> path \<Rightarrow> fs \<times> event list \<Rightarrow> client_response \<times> fs \<times> event list" where
  "audio_to_text_single_call w file_path tmp st =
     (case load_audio w file_path of
        Inl e \<Rightarrow> (ErrorField e, st)
      | Inr a \<Rightarrow>
          if upload_limit < raw_size a
          then (if len_ms a = 0 then (ErrorField ZeroDivisionError, st)
                else (let chunk_duration_ms =
                            float_div (py_float (int upload_limit))
                              (int_true_div (int (raw_size a)) (int (len_ms a)));
                          chunks = make_chunks a chunk_duration_ms
                      in case transcribe_windows w tmp file_path (enumerate 0 chunks) [] st of
                           (Inl e, st1) \<Rightarrow> (ErrorField e, st1)
                         | (Inr t, st1) \<Rightarrow> (TranscriptField t, st1)))
          else (case transcribe_with_openai_whisper w file_path of
                  (Inl e, posts) \<Rightarrow> (ErrorField e, fst st, snd st @ posts)
                | (Inr (response, transcript_v1), posts) \<Rightarrow>
                    (TranscriptField transcript_v1, fst st, snd st @ posts)))"

section \<open>Concurrent Dispatcher\<close>

text \<open>
  \<^verbatim>\<open>process_audio_chunk\<close>, lines 224 to 248, without its clock.
\<close>

definition process_audio_chunk ::
  "'j world \<Rightarrow> path \<Rightarrow> path \<Rightarrow> fs \<times> event list \<Rightarrow> chunk_result \<times> fs \<times> event list" where
  "process_audio_chunk w tmp chunk_path st =
     (case audio_to_text_single_call w chunk_path tmp st of
        (transcription_response, st1) \<Rightarrow>
          (\<lparr>chunk_id = fst (splitext (basename chunk_path)),
            file_name = basename chunk_path,
            error = (case transcription_response of
                       ErrorField e \<Rightarrow> Some e | TranscriptField t \<Rightarrow> None),
            transcript = (case transcription_response of
                            TranscriptField t \<Rightarrow> Some t | ErrorField e \<Rightarrow> None)\<rparr>,
           st1))"

text \<open>
  The pool of lines 304 to 314. Every chunk is submitted; the results are collected
  in the order in which the workers finish, which \<open>finish_time\<close> gives for the
  submitted positions.
\<close>

fun run_workers ::
  "'j world \<Rightarrow> path \<Rightarrow> path list \<Rightarrow> fs \<times> event list \<Rightarrow> chunk_result list \<times> fs \<times> event list" where
  "run_workers w tmp [] st = ([], st)"
| "run_workers w tmp (chunk_path # rest) st =
     (case process_audio_chunk w tmp chunk_path st of
        (r, st1) \<Rightarrow> (case run_workers w tmp rest st1 of (rs, st2) \<Rightarrow> (r # rs, st2)))"

definition as_completed :: "(nat \<Rightarrow> nat) \<Rightarrow> 'a list \<Rightarrow> 'a list" where
  "as_completed finish results = map (\<lambda>i. results ! i) (sort_key finish [0 ..< length results])"

section \<open>Summarizer\<close>

definition system_prompt :: string where
  "system_prompt = concat
     [[CHR 0x0A],
      ''        You are a helpful assistant that summarizes legal call transcripts. Your job is to extract '', [CHR 0x0A],
      ''        the most important information and present it in a clear, structured JSON format. Focus only on '', [CHR 0x0A],
      ''        extracting key points and action items from the transcript. The transcript might contain some transcription errors.'', [CHR 0x0A],
      ''        These calls are being made from experts on behalf of Vakilsearch.com. Correct any mis-pronunciations of the name Vakilsearch.'', [CHR 0x0A],
      ''        '']"

definition user_prompt :: "string \<Rightarrow> string" where
  "user_prompt full_transcript = concat
     [[CHR 0x0A],
      ''Please summarize the following legal call transcript into a structured JSON format.'', [CHR 0x0A],
      [CHR 0x0A],
      ''Extract and organize the information into the following sections:'', [CHR 0x0A],
      [CHR 0x0A],
      ''1. **Key Points**: Provide 3-5 bullet points summarizing the most important details discussed.'', [CHR 0x0A],
      ''2. **Action Items**: For each action item, include:'', [CHR 0x0A],
      ''   - **Title**: A short title for the action item.'', [CHR 0x0A],
      ''   - **Task**: The specific task to be completed.'', [CHR 0x0A],
      ''   - **Description**: Additional details about the task.'', [CHR 0x0A],
      ''   - **Deadline**: The deadline, if mentioned.'', [CHR 0x0A],
      [CHR 0x0A],
      ''Format the response as a JSON object with the structure:'', [CHR 0x0A],
      [CHR 0x0A],
      ''{'', [CHR 0x0A],
      ''  '', [CHR 0x22], ''summary'', [CHR 0x22], '': {'', [CHR 0x0A],
      ''    '', [CHR 0x22], ''key_points'', [CHR 0x22], '': ['', [CHR 0x22], ''<Point 1>'', [CHR 0x22], '', '', [CHR 0x22], ''<Point 2>'', [CHR 0x22], '', '', [CHR 0x22], ''<Point 3>'', [CHR 0x22], ''],'', [CHR 0x0A],
      ''    '', [CHR 0x22], ''action_items'', [CHR 0x22], '': ['', [CHR 0x0A],
      ''      {'', [CHR 0x22], ''title'', [CHR 0x22], '': '', [CHR 0x22], ''<Action Item Title>'', [CHR 0x22], '', '', [CHR 0x22], ''task'', [CHR 0x22], '': '', [CHR 0x22], ''<Action Item 1>'', [CHR 0x22], '', '', [CHR 0x22], ''description'', [CHR 0x22], '': '', [CHR 0x22], ''<Description>'', [CHR 0x22], '', '', [CHR 0x22], ''deadline'', [CHR 0x22], '': '', [CHR 0x22], ''<Deadline (if applicable)>'', [CHR 0x22], ''},'', [CHR 0x0A],
      ''      {'', [CHR 0x22], ''title'', [CHR 0x22], '': '', [CHR 0x22], ''<Action Item Title>'', [CHR 0x22], '', '', [CHR 0x22], ''task'', [CHR 0x22], '': '', [CHR 0x22], ''<Action Item 2>'', [CHR 0x22], '', '', [CHR 0x22], ''description'', [CHR 0x22], '': '', [CHR 0x22], ''<Description>'', [CHR 0x22], '', '', [CHR 0x22], ''deadline'', [CHR 0x22], '': '', [CHR 0x22], ''<Deadline (if applicable)>'', [CHR 0x22], ''}'', [CHR 0x0A],
      ''    ]'', [CHR 0x0A],
      ''  }'', [CHR 0x0A],
      ''}'', [CHR 0x0A],
      [CHR 0x0A],
      ''Return ONLY the JSON object with no additional text or explanation. Ensure it is properly formatted JSON.'', [CHR 0x0A],
      [CHR 0x0A],
      ''Here'', [CHR 0x27], ''s the transcript:'', [CHR 0x0A]]
     @ full_transcript @ concat
     [[CHR 0x0A]]"

text \<open>
  The request body of lines 393 to 400.
\<close>

definition request_body :: "string \<Rightarrow> payload" where
  "request_body full_transcript =
     \<lparr>model = ''gpt-4o-mini'',
      messages = [(''system'', system_prompt), (''user'', user_prompt full_transcript)],
      temperature = 3 / 10\<rparr>"

text \<open>
  The clean-up of lines 415 to 420: both calls are in one \<^verbatim>\<open>try\<close> whose handler catches
  everything and only prints a warning, so a failure of the first skips the second and
  no failure is seen by the caller. \<^verbatim>\<open>shutil.rmtree\<close> raises when the directory does not
  exist or when the world makes it raise, \<^verbatim>\<open>os.remove\<close> likewise.
\<close>

definition clean_up :: "'j world \<Rightarrow> path \<Rightarrow> path \<Rightarrow> fs \<Rightarrow> fs" where
  "clean_up w chunks_dir audio_path files =
     (if chunks_dir \<notin> files then files
      else (case rmtree_raises w chunks_dir of
              Some left \<Rightarrow> Set.filter (\<lambda>q. \<not> prefix (chunks_dir @ ''/'') q \<or> left q) files
            | None \<Rightarrow>
                (let files1 = rmtree chunks_dir files
                 in if audio_path \<notin> files1 then files1
                    else (case remove_raises w audio_path of
                            Some e \<Rightarrow> files1
                          | None \<Rightarrow> remove_file audio_path files1))))"

text \<open>
  Lines 344 to 428.
\<close>

definition summarize ::
  "'j world \<Rightarrow> path \<Rightarrow> path \<Rightarrow> string \<Rightarrow> fs \<times> event list \<Rightarrow> 'j outcome \<times> fs \<times> event list" where
  "summarize w chunks_dir audio_path full_transcript st =
     (if \<not> truthy (getenv w ''OPENAI_API_KEY'') then (Error ApiKeyNotFound, st)
      else (let api_key = the (getenv w ''OPENAI_API_KEY'');
                data = request_body full_transcript;
                log1 = snd st @ [ChatPost api_key data]
            in case chat w api_key data of
                 ChatRaises e \<Rightarrow> (Error (SummarizationFailed e), fst st, log1)
               | ChatContent summary_text \<Rightarrow>
                   (case json_loads w summary_text of
                      None \<Rightarrow> (ParseError summary_text, fst st, log1)
                    | Some summary_json \<Rightarrow>
                        (Summary summary_json, clean_up w chunks_dir audio_path (fst st), log1))))"

text \<open>
  Step 4 and the summary, lines 316 to 428, from the collected results on: a failure
  of the merge is returned at once, otherwise the summarizer runs on the transcript.
\<close>

definition assemble_and_summarize ::
  "'j world \<Rightarrow> path \<Rightarrow> path \<Rightarrow> chunk_result list \<Rightarrow> fs \<times> event list
   \<Rightarrow> 'j outcome \<times> fs \<times> event list" where
  "assemble_and_summarize w chunks_dir audio_path chunks_results st =
     (case merge_transcripts chunks_results of
        Inl err \<Rightarrow> (Error err, st)
      | Inr full_transcript \<Rightarrow> summarize w chunks_dir audio_path full_transcript st)"

section \<open>The entry point\<close>

text \<open>
  The parameters of \<^verbatim>\<open>transcribe_and_summarize_video\<close>, line 84; \<open>provider\<close> is unused.
\<close>

definition parameters :: "string list" where
  "parameters =
     [''video_path'', ''temp_dir'', ''provider'', ''concurrency_level'', ''chunk_length_sec'',
      ''is_url'']"

text \<open>
  The function, lines 84 to 428, from the file system before the call to the
  dictionary returned, the file system after the call and the log of the requests.
  \<^verbatim>\<open>ThreadPoolExecutor\<close> rejects a pool without workers outside every handler.
\<close>

definition transcribe_and_summarize_video ::
  "'j world \<Rightarrow> string \<Rightarrow> path \<Rightarrow> string option \<Rightarrow> int \<Rightarrow> int \<Rightarrow> bool \<Rightarrow> fs
   \<Rightarrow> 'j outcome \<times> fs \<times> event list" where
  "transcribe_and_summarize_video w video_path temp_dir provider concurrency_level
     chunk_length_sec is_url files =
     (case makedirs temp_dir files of
        Inl e \<Rightarrow> (Uncaught e, files, [])
      | Inr files0 \<Rightarrow>
          (case (if is_url then fetch w video_path temp_dir files0 else (Inr video_path, files0)) of
             (Inl e, files1) \<Rightarrow> (Error (DownloadFailed e), files1, [])
           | (Inr source, files1) \<Rightarrow>
               (let video_name = fst (splitext (basename source));
                    chunks_dir = path_join temp_dir (video_name @ ''_chunks'')
                in case normalize w source video_name temp_dir files1 of
                     (Inl err, files2) \<Rightarrow> (Error err, files2, [])
                   | (Inr audio_path, files2) \<Rightarrow>
                       (case split_audio w video_name audio_path chunks_dir chunk_length_sec files2 of
                          (Inl err, files3) \<Rightarrow> (Error err, files3, [])
                        | (Inr audio_chunks, files3) \<Rightarrow>
                            if concurrency_level \<le> 0
                            then (Uncaught (ValueError ''max_workers must be greater than 0''),
                                  files3, [])
                            else (case run_workers w temp_dir (map chunk_file audio_chunks)
                                         (files3, []) of
                                    (results, st) \<Rightarrow>
                                      assemble_and_summarize w chunks_dir audio_path
                                        (as_completed (finish_time w) results) st)))))"

section \<open>An example world\<close>

text \<open>
  A world in which every external call succeeds: the decoder reports 150 seconds of
  audio for every file, the speech service answers \<^verbatim>\<open>hello\<close>, the chat service answers
  an empty JSON object, and no removal raises.
\<close>

definition example_world :: "string world" where
  "example_world =
     \<lparr>getenv = (\<lambda>k. if k = ''OPENAI_API_KEY'' then Some ''sk-example'' else None),
      urlparse_path = (\<lambda>url. Inr url),
      uuid8 = ''1a2b3c4d'',
      head_extension = (\<lambda>url. Inr None),
      download = (\<lambda>url p. None),
      guess_type = (\<lambda>p. None),
      ffmpeg = (\<lambda>command. None),
      load_audio = (\<lambda>p. Inr \<lparr>len_ms = 150000, raw_size = 4800000\<rparr>),
      finish_time = (\<lambda>i. i),
      whisper = (\<lambda>api_key p. WhisperText ''hello''),
      chat = (\<lambda>api_key data. ChatContent ''{}''),
      json_loads = (\<lambda>text. if text = ''{}'' then Some ''{}'' else None),
      remove_raises = (\<lambda>p. None),
      rmtree_raises = (\<lambda>p. None)\<rparr>"

section \<open>Two predicates for the proofs\<close>

text \<open>
  A log without a chat-completion request, and a path that no worker removes: the
  workers remove the sub-window files that they made themselves, nothing else.
\<close>

definition no_chat :: "event list \<Rightarrow> bool" where
  "no_chat requests \<longleftrightarrow> (\<forall>api_key data. ChatPost api_key data \<notin> set requests)"

definition kept_by_workers :: "path \<Rightarrow> path \<Rightarrow> bool" where
  "kept_by_workers tmp q \<longleftrightarrow> (\<forall>file_path i. q \<noteq> sub_window_path tmp file_path i)"

section \<open>Lemmas about the library calls\<close>

lemma bit_length_bounds:
  "0 < n \<Longrightarrow> 2 ^ (bit_length n - 1) \<le> n \<and> n < 2 ^ bit_length n"
proof (induction n rule: bit_length.induct)
  case (1 n)
  show ?case
  proof (cases "n div 2 = 0")
    case True
    with 1(2) have "n = 1" by presburger
    then show ?thesis by (simp add: bit_length.simps)
  next
    case False
    then have pos: "0 < n div 2" by simp
    from 1(1)[OF _ pos] 1(2)
    have ih: "2 ^ (bit_length (n div 2) - 1) \<le> n div 2" "n div 2 < 2 ^ bit_length (n div 2)"
      by auto
    have bl: "bit_length n = Suc (bit_length (n div 2))"
      using 1(2) by (subst bit_length.simps) simp
    have b1: "0 < bit_length (n div 2)"
      using pos by (subst bit_length.simps) simp
    then have e: "(2::nat) ^ bit_length (n div 2) = 2 * 2 ^ (bit_length (n div 2) - 1)"
      by (cases "bit_length (n div 2)") simp_all
    have "2 * (n div 2) \<le> n" "n < 2 * (n div 2) + 2" by presburger+
    with ih e have "2 ^ bit_length (n div 2) \<le> n" "n < 2 * 2 ^ bit_length (n div 2)"
      by linarith+
    then show ?thesis by (simp add: bl)
  qed
qed

lemma bit_length_eq:
  assumes "2 ^ k \<le> n" and "n < 2 ^ Suc k"
  shows "bit_length n = Suc k"
proof -
  have pos: "0 < n" using assms(1) by (cases n) auto
  from bit_length_bounds[OF pos]
  have b: "2 ^ (bit_length n - 1) \<le> n" "n < 2 ^ bit_length n" by auto
  have "(2::nat) ^ k < 2 ^ bit_length n" using assms(1) b(2) by linarith
  then have 1: "k < bit_length n" by (simp add: power_strict_increasing_iff)
  have "(2::nat) ^ (bit_length n - 1) < 2 ^ Suc k" using assms(2) b(1) by linarith
  then have 2: "bit_length n - 1 < Suc k" by (simp only: power_strict_increasing_iff) 
  from 1 2 show ?thesis by linarith
qed

lemma binade_eq:
  assumes "pow2 k \<le> x" and "x < pow2 (k + 1)"
  shows "binade x = k"
proof (cases "0 \<le> k")
  case True
  define j where "j = nat k"
  have k: "k = int j" using True by (simp add: j_def)
  have lo: "(2::rat) ^ j \<le> x" and hi: "x < 2 ^ Suc j"
    using assms by (simp_all add: pow2_def k nat_add_distrib)
  have one: "1 \<le> x" using lo one_le_power[of "2::rat" j] by linarith
  have "of_int (2 ^ j) \<le> x" using lo by simp
  then have l: "2 ^ j \<le> \<lfloor>x\<rfloor>" by (simp only: le_floor_iff)
  have "x < of_int (2 ^ Suc j)" using hi by simp
  then have h: "\<lfloor>x\<rfloor> < 2 ^ Suc j" by (simp only: floor_less_iff)
  have "bit_length (nat \<lfloor>x\<rfloor>) = Suc j"
  proof (rule bit_length_eq)
    show "2 ^ j \<le> nat \<lfloor>x\<rfloor>" using l by (simp add: le_nat_iff)
    have "0 \<le> \<lfloor>x\<rfloor>" using one by simp
    then show "nat \<lfloor>x\<rfloor> < 2 ^ Suc j" using h by (simp add: nat_less_iff)
  qed
  with one show ?thesis by (simp add: binade_def k)
next
  case False
  define j where "j = nat (- k) - 1"
  have k: "k = - int (Suc j)" using False by (simp add: j_def)
  have nk: "nat (- k) = Suc j" by (simp add: k)
  have lo: "1 / 2 ^ Suc j \<le> x" using assms(1) False by (simp add: pow2_def nk)
  have "pow2 (- int j) = 1 / 2 ^ j" by (cases j) (simp_all add: pow2_def nat_add_distrib)
  moreover have "k + 1 = - int j" by (simp add: k)
  ultimately have hi: "x < 1 / 2 ^ j" using assms(2) by simp
  have "(0::rat) < 1 / 2 ^ Suc j" by simp
  with lo have xpos: "0 < x" by linarith
  have "(1::rat) \<le> 2 ^ j" by simp
  then have "1 / (2::rat) ^ j \<le> 1" by (simp add: divide_le_eq_1)
  with hi have lt1: "x < 1" by linarith
  have y1: "1 / x \<le> 2 ^ Suc j"
    using lo xpos by (simp add: field_simps)
  have y2: "2 ^ j < 1 / x"
    using hi xpos by (simp add: field_simps)
  have "1 / x \<le> of_int (2 ^ Suc j)" using y1 by simp
  then have c1: "\<lceil>1 / x\<rceil> \<le> 2 ^ Suc j" by (simp only: ceiling_le_iff)
  have "of_int (2 ^ j) < 1 / x" using y2 by simp
  then have c2: "2 ^ j < \<lceil>1 / x\<rceil>" by (simp only: less_ceiling_iff)
  have "bit_length (nat (\<lceil>1 / x\<rceil> - 1)) = Suc j"
  proof (rule bit_length_eq)
    show "2 ^ j \<le> nat (\<lceil>1 / x\<rceil> - 1)" using c2 by (simp add: le_nat_iff)
    have "(0::int) < 2 ^ j" by simp
    with c2 have "0 \<le> \<lceil>1 / x\<rceil> - 1" by linarith
    moreover have "\<lceil>1 / x\<rceil> - 1 < 2 ^ Suc j" using c1 by linarith
    ultimately show "nat (\<lceil>1 / x\<rceil> - 1) < 2 ^ Suc j" by (simp add: nat_less_iff)
  qed
  with lt1 show ?thesis by (simp add: binade_def k)
qed

lemma round_half_even_eq:
  assumes "\<bar>x - of_int m\<bar> < 1 / 2"
  shows "round_half_even x = m"
proof -
  define n where "n = \<lfloor>x\<rfloor>"
  have n: "of_int n \<le> x" "x < of_int n + 1"
    using floor_correct[of x] by (simp_all add: n_def)
  have "of_int m - 1 < (of_int n :: rat) + 1" "(of_int n :: rat) < of_int m + 1"
    using assms n by linarith+
  then have "m - 1 < n + 1" "n < m + 1"
    by (metis of_int_less_iff of_int_add of_int_diff of_int_1)+
  then consider "n = m" | "n = m - 1" by linarith
  then show ?thesis
  proof cases
    case 1
    then have "x - of_int n < 1 / 2" using assms by linarith
    then show ?thesis by (simp add: round_half_even_def n_def[symmetric] 1)
  next
    case 2
    then have "of_int n = (of_int m :: rat) - 1" by simp
    then have "1 / 2 < x - of_int n" using assms by linarith
    then show ?thesis by (simp add: round_half_even_def n_def[symmetric] 2)
  qed
qed

lemma to_double_eq:
  assumes "pow2 k \<le> x" and "x < pow2 (k + 1)"
    and "\<bar>x / pow2 (k - 52) - of_int m\<bar> < 1 / 2"
    and "r = of_int m * pow2 (k - 52)"
  shows "to_double x = r"
proof -
  have "0 < pow2 k" by (simp add: pow2_def)
  with assms(1) have pos: "0 < x" by linarith
  have b: "binade x = k" using assms(1,2) by (rule binade_eq)
  show ?thesis
    using pos by (simp add: to_double_def b Let_def round_half_even_eq[OF assms(3)] assms(4))
qed

lemma to_double_examples:
  "to_double 25165824 = 25165824"
  "to_double 60000 = 60000"
  "to_double (30000000 / 60000) = 500"
  "to_double (25165824 / 500) = 3458764513820541 / 68719476736"
  "to_double (60000 / (3458764513820541 / 68719476736)) = 78125 / 65536"
  "to_double 249167 = 249167"
  "to_double (50331648 / 249167) = 7107231018056633 / 35184372088832"
  "to_double (25165824 / (7107231018056633 / 35184372088832)) = 8561312929939455 / 68719476736"
  "to_double (249167 / (8561312929939455 / 68719476736)) = 4503599627370497 / 2251799813685248"
proof -
  show "to_double 25165824 = 25165824"
    by (rule to_double_eq[where k = 24 and m = 6755399441055744]) (simp_all add: pow2_def)
  show "to_double 60000 = 60000"
    by (rule to_double_eq[where k = 15 and m = 8246337208320000]) (simp_all add: pow2_def)
  show "to_double (30000000 / 60000) = 500"
    by (rule to_double_eq[where k = 8 and m = 8796093022208000]) (simp_all add: pow2_def)
  show "to_double (25165824 / 500) = 3458764513820541 / 68719476736"
    by (rule to_double_eq[where k = 15 and m = 6917529027641082]) (simp_all add: pow2_def)
  show "to_double (60000 / (3458764513820541 / 68719476736)) = 78125 / 65536"
    by (rule to_double_eq[where k = 0 and m = 5368709120000000]) (simp_all add: pow2_def)
  show "to_double 249167 = 249167"
    by (rule to_double_eq[where k = 17 and m = 8561312929939456]) (simp_all add: pow2_def)
  show "to_double (50331648 / 249167) = 7107231018056633 / 35184372088832"
    by (rule to_double_eq[where k = 7 and m = 7107231018056633]) (simp_all add: pow2_def)
  show "to_double (25165824 / (7107231018056633 / 35184372088832))
        = 8561312929939455 / 68719476736"
    by (rule to_double_eq[where k = 16 and m = 8561312929939455]) (simp_all add: pow2_def)
  show "to_double (249167 / (8561312929939455 / 68719476736))
        = 4503599627370497 / 2251799813685248"
    by (rule to_double_eq[where k = 1 and m = 4503599627370497]) (simp_all add: pow2_def)
qed


lemma partition_first_append:
  "partition_first sep s = Some (a, b) \<Longrightarrow> partition_first sep (s @ t) = Some (a, b @ t)"
proof (induction s arbitrary: a)
  case Nil
  then have "sep = []" "a = []" "b = []" by (simp_all split: if_splits)
  then show ?case by (cases t) simp_all
next
  case (Cons c cs)
  show ?case
  proof (cases "prefix sep (c # cs)")
    case True
    then have "prefix sep (c # cs @ t)" by (metis append_Cons prefix_prefix)
    moreover from True obtain u where u: "c # cs = sep @ u" by (auto simp: prefix_def)
    have "drop (length sep) (c # cs) = u" by (simp add: u)
    moreover have "drop (length sep) (c # cs @ t) = u @ t"
      by (metis u append_Cons append_assoc append_eq_conv_conj)
    ultimately show ?thesis using Cons.prems True by simp
  next
    case False
    with Cons.prems obtain a' where a': "partition_first sep cs = Some (a', b)" "a = c # a'"
      by (auto split: option.splits)
    from a'(1) have "length sep \<le> length cs" using partition_first_length by fastforce
    then have "\<not> prefix sep (c # cs @ t)"
      using False by (metis append_Cons prefix_append append_eq_conv_conj le_SucI length_Cons
          prefix_def take_all append_Nil2 prefix_order.order_refl prefix_length_le)
    with Cons.IH[OF a'(1)] a'(2) show ?thesis by simp
  qed
qed

lemma partition_first_fresh:
  assumes "sep \<noteq> []" and "\<not> py_in sep (name @ butlast sep)"
  shows "partition_first sep (name @ sep @ rest) = Some (name, rest)"
  using assms(2)
proof (induction name)
  case Nil
  from assms(1) obtain c cs where "sep = c # cs" by (cases sep) auto
  then show ?case by simp
next
  case (Cons c cs)
  from Cons.prems have np: "\<not> prefix sep (c # cs @ butlast sep)"
    and nn: "partition_first sep (cs @ butlast sep) = None"
    by (auto simp: py_in_def split: if_splits option.splits)
  have len: "length sep \<le> length (c # cs @ butlast sep)" by simp
  have eq: "c # cs @ sep @ rest = (c # cs @ butlast sep) @ [last sep] @ rest"
    using assms(1) by simp
  have "\<not> prefix sep (c # cs @ sep @ rest)"
  proof
    assume "prefix sep (c # cs @ sep @ rest)"
    then have "prefix sep ((c # cs @ butlast sep) @ [last sep] @ rest)"
      by (simp only: eq)
    then have "prefix sep (c # cs @ butlast sep)"
      using len by (metis prefix_length_prefix prefix_def)
    with np show False ..
  qed
  moreover have "partition_first sep (cs @ sep @ rest) = Some (cs, rest)"
    using Cons.IH nn by (simp add: py_in_def)
  ultimately show ?case by simp
qed

lemma partition_first_set:
  "partition_first sep s = Some (a, b) \<Longrightarrow> set sep \<subseteq> set s"
proof (induction s arbitrary: a)
  case Nil
  then show ?case by (simp split: if_splits)
next
  case (Cons c cs)
  show ?case
  proof (cases "prefix sep (c # cs)")
    case True
    then show ?thesis by (rule set_mono_prefix)
  next
    case False
    with Cons.prems obtain a' where "partition_first sep cs = Some (a', b)"
      by (auto split: option.splits)
    with Cons.IH show ?thesis by fastforce
  qed
qed

lemma digit_char_is_digit: "d < 10 \<Longrightarrow> is_digit (digit_char d)"
proof -
  assume "d < 10"
  then have "d \<in> {0, 1, 2, 3, 4, 5, 6, 7, 8, 9}" by auto
  then show ?thesis by (auto simp: is_digit_def digit_char_def)
qed

lemma digit_val_digit_char: "d < 10 \<Longrightarrow> digit_val (digit_char d) = d"
proof -
  assume "d < 10"
  then have "d \<in> {0, 1, 2, 3, 4, 5, 6, 7, 8, 9}" by auto
  then show ?thesis by (auto simp: digit_val_def digit_char_def)
qed

lemma py_str_digits: "list_all is_digit (py_str n)"
proof (induction n rule: py_str.induct)
  case (1 n)
  show ?case
  proof (cases "n < 10")
    case True
    then show ?thesis by (subst py_str.simps) (simp add: digit_char_is_digit)
  next
    case False
    moreover have "n mod 10 < 10" by simp
    ultimately show ?thesis using 1 by (subst py_str.simps) (simp add: digit_char_is_digit)
  qed
qed

lemma py_str_nonempty: "py_str n \<noteq> []"
  by (subst py_str.simps) simp

lemma dec_value_snoc: "dec_value (ds @ [c]) = 10 * dec_value ds + digit_val c"
  by (simp add: dec_value_def)

lemma dec_value_py_str: "dec_value (py_str n) = n"
proof (induction n rule: py_str.induct)
  case (1 n)
  show ?case
  proof (cases "n < 10")
    case True
    then show ?thesis
      by (subst py_str.simps) (simp add: dec_value_def digit_val_digit_char)
  next
    case False
    moreover have "n mod 10 < 10" by simp
    ultimately show ?thesis using 1
      by (subst py_str.simps) (simp add: dec_value_snoc digit_val_digit_char)
  qed
qed

lemma well_grouped_digits: "ds \<noteq> [] \<Longrightarrow> list_all is_digit ds \<Longrightarrow> well_grouped ds"
proof (induction ds rule: well_grouped.induct)
  case 1
  then show ?case by simp
next
  case (2 c)
  then show ?case by simp
next
  case (3 c d cs)
  then have "d \<noteq> CHR ''_''" by (auto simp: is_digit_def)
  with 3 show ?case by simp
qed

lemma digit_not_special:
  "is_digit c \<Longrightarrow> \<not> is_space c \<and> c \<noteq> CHR ''-'' \<and> c \<noteq> CHR ''+'' \<and> c \<noteq> CHR ''_''"
  by (auto simp: is_digit_def is_space_def)

lemma py_int_digits:
  assumes "ds \<noteq> []" and "list_all is_digit ds"
  shows "py_int ds = Some (int (dec_value ds))"
proof -
  from assms obtain c cs where ds: "ds = c # cs" by (cases ds) auto
  with assms(2) have c: "is_digit c" by simp
  then have f1: "dropWhile is_space ds = ds" by (simp add: ds digit_not_special)
  have f2: "strip_sign ds = (False, ds)"
    using c by (simp add: ds strip_sign_def digit_not_special)
  have f3: "takeWhile (\<lambda>c. is_digit c \<or> c = CHR ''_'') ds = ds"
    using assms(2) by (simp add: list_all_iff)
  have f4: "dropWhile (\<lambda>c. is_digit c \<or> c = CHR ''_'') ds = []"
    using assms(2) by (simp add: list_all_iff)
  have f5: "filter is_digit ds = ds"
    using assms(2) by (simp add: list_all_iff)
  show ?thesis
    unfolding py_int_def f1 f2 Let_def prod.case f3 f4 f5
    using well_grouped_digits[OF assms] by simp
qed

lemma py_int_py_str: "py_int (py_str n) = Some (int n)"
  by (simp add: py_int_digits py_str_nonempty py_str_digits dec_value_py_str)

lemma delimiter_not_in_py_str: "partition_first delimiter (py_str n) = None"
proof (rule ccontr)
  assume "partition_first delimiter (py_str n) \<noteq> None"
  then obtain a b where "partition_first delimiter (py_str n) = Some (a, b)" by auto
  then have "set delimiter \<subseteq> set (py_str n)" by (rule partition_first_set)
  then have "CHR ''_'' \<in> set (py_str n)" by (auto simp: delimiter_def)
  with py_str_digits[of n] have "is_digit CHR ''_''" by (simp add: list_all_iff)
  then show False by (simp add: is_digit_def)
qed

lemma delimiter_nonempty: "delimiter \<noteq> []"
  by (simp add: delimiter_def)

lemma butlast_delimiter: "butlast delimiter = ''_chunk''"
  by (simp add: delimiter_def)

lemma py_split_None: "partition_first sep s = None \<Longrightarrow> py_split sep s = [s]"
  by (subst py_split.simps) simp

lemma py_split_Some:
  "sep \<noteq> [] \<Longrightarrow> partition_first sep s = Some (a, b) \<Longrightarrow> py_split sep s = a # py_split sep b"
  by (subst py_split.simps) simp

lemma split_chunk_id:
  assumes "\<not> py_in delimiter (video_name @ ''_chunk'')"
  shows "py_split delimiter (video_name @ delimiter @ py_str i) = [video_name, py_str i]"
proof -
  have "partition_first delimiter (video_name @ delimiter @ py_str i) = Some (video_name, py_str i)"
    using assms by (simp add: partition_first_fresh delimiter_nonempty butlast_delimiter)
  then show ?thesis
    by (simp add: py_split_Some py_split_None delimiter_nonempty delimiter_not_in_py_str)
qed

lemma sort_index_chunk_id:
  assumes "\<not> py_in delimiter (video_name @ ''_chunk'')"
    and "chunk_id r = video_name @ delimiter @ py_str i"
  shows "sort_index r = Inr (int i)"
proof -
  have "partition_first delimiter (chunk_id r) = Some (video_name, py_str i)"
    using assms by (simp add: partition_first_fresh delimiter_nonempty butlast_delimiter)
  then have "py_in delimiter (chunk_id r)" by (simp add: py_in_def)
  then show ?thesis
    using assms by (simp add: sort_index_def split_chunk_id py_int_py_str)
qed

lemma keys_of_Inr:
  "(\<And>x. x \<in> set xs \<Longrightarrow> f x = Inr (g x)) \<Longrightarrow> keys_of f xs = Inr (map g xs)"
  by (induction xs) simp_all

lemma keys_of_Inl:
  "xs \<noteq> [] \<Longrightarrow> (\<And>x. x \<in> set xs \<Longrightarrow> f x = Inl e) \<Longrightarrow> keys_of f xs = Inl e"
  by (cases xs) simp_all

lemma map_snd_insort_key:
  "(\<And>p. p \<in> set ps \<Longrightarrow> fst p = g (snd p)) \<Longrightarrow>
   map snd (insort_key fst (g x, x) ps) = insort_key g x (map snd ps)"
  by (induction ps) auto

lemma zip_map_key: "p \<in> set (zip (map g xs) xs) \<Longrightarrow> fst p = g (snd p)"
  by (induction xs) auto

lemma sort_decorated: "map snd (sort_key fst (zip (map g xs) xs)) = sort_key g xs"
proof (induction xs)
  case Nil
  then show ?case by simp
next
  case (Cons x xs)
  have "map snd (insort_key fst (g x, x) (sort_key fst (zip (map g xs) xs)))
      = insort_key g x (map snd (sort_key fst (zip (map g xs) xs)))"
    by (rule map_snd_insort_key) (simp add: zip_map_key)
  with Cons show ?case by simp
qed

lemma py_sorted_Inr:
  assumes "\<And>x. x \<in> set xs \<Longrightarrow> f x = Inr (g x)"
  shows "py_sorted f xs = Inr (sort_key g xs)"
  using keys_of_Inr[of xs f g, OF assms] by (simp add: py_sorted_def sort_decorated)

lemma py_sorted_Inl:
  "xs \<noteq> [] \<Longrightarrow> (\<And>x. x \<in> set xs \<Longrightarrow> f x = Inl e) \<Longrightarrow> py_sorted f xs = Inl e"
  by (simp add: py_sorted_def keys_of_Inl)

lemma py_sorted_permutation:
  assumes keys: "\<And>x. x \<in> set xs \<Longrightarrow> f x = Inr (g x)"
    and perm: "mset ys = mset xs"
    and inj: "inj_on g (set xs)"
  shows "py_sorted f ys = py_sorted f xs"
proof -
  from perm have set_eq: "set ys = set xs" by (rule mset_eq_setD)
  have "sort_key g ys = sort_key g xs"
  proof (rule sort_key_inj_key_eq)
    show "mset ys = mset (sort_key g xs)" using perm by simp
    show "inj_on g (set ys)" using inj set_eq by simp
    show "sorted (map g (sort_key g xs))" by simp
  qed
  moreover have "py_sorted f ys = Inr (sort_key g ys)"
    using keys set_eq by (intro py_sorted_Inr) simp
  moreover have "py_sorted f xs = Inr (sort_key g xs)"
    using keys by (intro py_sorted_Inr) simp
  ultimately show ?thesis by simp
qed

lemma takeWhile_not_mem: "c \<notin> set xs \<Longrightarrow> takeWhile (\<lambda>x. x \<noteq> c) xs = xs"
  by (induction xs) auto

lemma takeWhile_not_mem_append:
  "c \<notin> set xs \<Longrightarrow> takeWhile (\<lambda>x. x \<noteq> c) (xs @ c # ys) = xs"
  by (induction xs) auto

lemma basename_no_slash: "CHR ''/'' \<notin> set f \<Longrightarrow> basename f = f"
  by (simp add: basename_def takeWhile_not_mem)

lemma basename_path_join:
  assumes "CHR ''/'' \<notin> set f"
  shows "basename (path_join d f) = f"
proof -
  have np: "\<not> prefix ''/'' f" using assms by (cases f) auto
  have tw: "takeWhile (\<lambda>c. c \<noteq> CHR ''/'') (rev f @ CHR ''/'' # ys) = rev f" for ys
    using assms by (simp add: takeWhile_not_mem_append)
  show ?thesis
  proof (cases "d = []")
    case True
    then show ?thesis using np assms by (simp add: path_join_def basename_no_slash)
  next
    case False
    show ?thesis
    proof (cases "suffix ''/'' d")
      case True
      then obtain d' where "d = d' @ ''/''" by (auto simp: suffix_def)
      then show ?thesis using np False by (simp add: path_join_def basename_def tw)
    next
      case nosuf: False
      then show ?thesis using np False by (simp add: path_join_def basename_def tw)
    qed
  qed
qed

lemma splitext_wav:
  assumes "CHR ''/'' \<notin> set stem" and "\<exists>c \<in> set stem. c \<noteq> CHR ''.''"
  shows "splitext (stem @ ''.wav'') = (stem, ''.wav'')"
proof -
  have b: "basename (stem @ ''.wav'') = stem @ ''.wav''"
    using assms(1) by (simp add: basename_no_slash)
  show ?thesis using assms(2) by (simp add: splitext_def b)
qed

lemma py_str_no_slash: "CHR ''/'' \<notin> set (py_str i)"
proof
  assume "CHR ''/'' \<in> set (py_str i)"
  with py_str_digits[of i] have "is_digit CHR ''/''" by (simp add: list_all_iff)
  then show False by (simp add: is_digit_def)
qed

lemma chunk_id_of_chunk_file:
  assumes "CHR ''/'' \<notin> set video_name"
  shows "fst (splitext (basename (path_join chunks_dir (chunk_file_name video_name i))))
         = video_name @ delimiter @ py_str i"
proof -
  have ns: "CHR ''/'' \<notin> set (chunk_file_name video_name i)"
    using assms py_str_no_slash by (simp add: chunk_file_name_def)
  have "chunk_file_name video_name i = (video_name @ ''_chunk_'' @ py_str i) @ ''.wav''"
    by (simp add: chunk_file_name_def)
  moreover have "splitext ((video_name @ ''_chunk_'' @ py_str i) @ ''.wav'')
                 = (video_name @ ''_chunk_'' @ py_str i, ''.wav'')"
    using assms py_str_no_slash by (intro splitext_wav) auto
  ultimately show ?thesis
    using ns by (simp add: basename_path_join delimiter_def)
qed

lemma basename_has_no_slash: "CHR ''/'' \<notin> set (basename p)"
proof -
  have "set (takeWhile (\<lambda>c. c \<noteq> CHR ''/'') (rev p)) \<subseteq> {c. c \<noteq> CHR ''/''}"
    by (auto dest: set_takeWhileD)
  then show ?thesis by (auto simp: basename_def)
qed

lemma splitext_fst_no_slash: "CHR ''/'' \<notin> set p \<Longrightarrow> CHR ''/'' \<notin> set (fst (splitext p))"
  by (auto simp: splitext_def Let_def dest: in_set_takeD)

section \<open>Properties of the Transcript Assembler\<close>


lemma hd_py_split_delimited:
  assumes "sep \<noteq> []"
  shows "hd (py_split sep (b @ sep @ ds)) = hd (py_split sep (b @ sep))"
proof (cases "partition_first sep (b @ butlast sep)")
  case None
  then have fresh: "\<not> py_in sep (b @ butlast sep)" by (simp add: py_in_def)
  have "partition_first sep (b @ sep @ ds) = Some (b, ds)"
    using assms fresh by (rule partition_first_fresh)
  moreover have "partition_first sep (b @ sep @ []) = Some (b, [])"
    using assms fresh by (rule partition_first_fresh)
  ultimately show ?thesis using assms by (simp add: py_split_Some)
next
  case (Some ab)
  obtain a2 b2 where ab: "ab = (a2, b2)" by (cases ab)
  have e1: "b @ sep @ ds = (b @ butlast sep) @ ([last sep] @ ds)" using assms by simp
  have e2: "b @ sep = (b @ butlast sep) @ [last sep]" using assms by simp
  have "partition_first sep ((b @ butlast sep) @ ([last sep] @ ds)) = Some (a2, b2 @ ([last sep] @ ds))"
    by (rule partition_first_append) (simp add: Some ab)
  then have "partition_first sep (b @ sep @ ds) = Some (a2, b2 @ ([last sep] @ ds))"
    by (simp only: e1[symmetric])
  moreover have "partition_first sep ((b @ butlast sep) @ [last sep]) = Some (a2, b2 @ [last sep])"
    by (rule partition_first_append) (simp add: Some ab)
  then have "partition_first sep (b @ sep) = Some (a2, b2 @ [last sep])"
    by (simp only: e2[symmetric])
  ultimately show ?thesis using assms by (simp add: py_split_Some)
qed

lemma py_split_nonempty: "py_split sep s \<noteq> []"
  by (subst py_split.simps) (simp split: option.splits)

lemma split_chunk_id_delimited_name:
  assumes "py_in delimiter video_name"
  shows "\<exists>a rest. py_split delimiter (video_name @ delimiter @ py_str i)
                   = a # index_segment video_name # rest"
proof -
  from assms obtain a b where ab: "partition_first delimiter video_name = Some (a, b)"
    by (auto simp: py_in_def)
  have p1: "partition_first delimiter (video_name @ delimiter @ py_str i)
            = Some (a, b @ delimiter @ py_str i)"
    using ab by (rule partition_first_append)
  have p2: "partition_first delimiter (video_name @ delimiter) = Some (a, b @ delimiter)"
    using ab by (rule partition_first_append)
  have s1: "py_split delimiter (video_name @ delimiter @ py_str i)
            = a # py_split delimiter (b @ delimiter @ py_str i)"
    using p1 by (simp add: py_split_Some delimiter_nonempty)
  have s2: "py_split delimiter (video_name @ delimiter) = a # py_split delimiter (b @ delimiter)"
    using p2 by (simp add: py_split_Some delimiter_nonempty)
  have seg: "index_segment video_name = hd (py_split delimiter (b @ delimiter))"
    using py_split_nonempty[of delimiter "b @ delimiter"]
    by (simp add: index_segment_def s2 hd_conv_nth)
  obtain x xs where xs: "py_split delimiter (b @ delimiter @ py_str i) = x # xs"
    using py_split_nonempty[of delimiter "b @ delimiter @ py_str i"] by (cases "py_split delimiter (b @ delimiter @ py_str i)") auto
  have "x = hd (py_split delimiter (b @ delimiter))"
    using hd_py_split_delimited[OF delimiter_nonempty, of b "py_str i"] xs by simp
  with seg s1 xs show ?thesis by simp
qed

lemma sort_index_delimited_name:
  assumes "py_in delimiter video_name"
    and "chunk_id r = video_name @ delimiter @ py_str i"
  shows "sort_index r =
         (case py_int (index_segment video_name) of
            None \<Rightarrow> Inl (ValueError (index_segment video_name))
          | Some k \<Rightarrow> Inr k)"
proof -
  from assms(1) obtain a b where "partition_first delimiter video_name = Some (a, b)"
    by (auto simp: py_in_def)
  then have "partition_first delimiter (video_name @ delimiter @ py_str i)
             = Some (a, b @ delimiter @ py_str i)"
    by (rule partition_first_append)
  then have "py_in delimiter (chunk_id r)" using assms(2) by (simp add: py_in_def)
  moreover obtain a' rest where
    "py_split delimiter (chunk_id r) = a' # index_segment video_name # rest"
    using split_chunk_id_delimited_name[OF assms(1), of i] assms(2) by auto
  ultimately show ?thesis by (simp add: sort_index_def)
qed

text \<open>
  C10, as amended. For every input file whose base name contains \<^verbatim>\<open>_chunk_\<close> and whose
  index segment, the text between the first \<^verbatim>\<open>_chunk_\<close> of the name and the next one of
  the chunk id, is not an integer literal, the index extraction fails with a parse
  exception for every chunk, and merging returns the transcript-merging failure
  whatever the chunks' transcripts are.
\<close>

theorem name_with_delimiter_fails_merging:
  assumes "py_in delimiter video_name"
    and "py_int (index_segment video_name) = None"
    and "chunks_results \<noteq> []"
    and "\<And>r. r \<in> set chunks_results \<Longrightarrow> \<exists>i. chunk_id r = video_name @ delimiter @ py_str i"
  shows "merge_transcripts chunks_results
         = Inl (TranscriptMergingFailed (ValueError (index_segment video_name)))"
proof -
  have "sort_index r = Inl (ValueError (index_segment video_name))"
    if "r \<in> set chunks_results" for r
    using assms(4)[OF that] sort_index_delimited_name[OF assms(1)] assms(2) by auto
  then have "py_sorted sort_index chunks_results = Inl (ValueError (index_segment video_name))"
    using assms(3) by (intro py_sorted_Inl) auto
  then show ?thesis by (simp add: merge_transcripts_def)
qed

lemma name_with_integer_segment_keeps_collection_order:
  assumes "py_in delimiter video_name"
    and "py_int (index_segment video_name) = Some k"
    and "\<And>r. r \<in> set chunks_results \<Longrightarrow> \<exists>i. chunk_id r = video_name @ delimiter @ py_str i"
  shows "merge_transcripts chunks_results
         = (let full_transcript = py_join '' '' (truthy_transcripts chunks_results)
            in if full_transcript = [] then Inl NoTranscript else Inr full_transcript)"
proof -
  have "sort_index r = Inr k" if "r \<in> set chunks_results" for r
    using assms(3)[OF that] sort_index_delimited_name[OF assms(1)] assms(2) by auto
  then have "py_sorted sort_index chunks_results = Inr (sort_key (\<lambda>r. k) chunks_results)"
    by (intro py_sorted_Inr) auto
  then show ?thesis by (simp add: merge_transcripts_def sort_key_const)
qed

lemmas eval_int = py_int_def strip_sign_def is_space_def is_digit_def dec_value_def digit_val_def


lemmas eval_merge =
  merge_transcripts_def py_sorted_def sort_index_def delimiter_def py_in_def py_split.simps
  eval_int

theorem name_with_delimiter_fails_merging_witness:
  "py_in delimiter ''a_chunk_b''
   \<and> py_int (index_segment ''a_chunk_b'') = None
   \<and> merge_transcripts
        [\<lparr>chunk_id = ''a_chunk_b_chunk_0'', file_name = ''a_chunk_b_chunk_0.wav'',
          error = None, transcript = Some ''hello''\<rparr>]
       = Inl (TranscriptMergingFailed (ValueError ''b''))"
proof -
  have seg: "index_segment ''a_chunk_b'' = ''b''"
    by (simp add: index_segment_def delimiter_def py_split.simps)
  have h1: "py_in delimiter ''a_chunk_b''" by (simp add: py_in_def delimiter_def)
  have h2: "py_int (index_segment ''a_chunk_b'') = None" by (simp add: seg eval_int)
  have "''a_chunk_b_chunk_0'' = ''a_chunk_b'' @ delimiter @ py_str 0"
    by (simp add: delimiter_def py_str.simps digit_char_def)
  then have h4: "\<And>r. r \<in> set [\<lparr>chunk_id = ''a_chunk_b_chunk_0'',
        file_name = ''a_chunk_b_chunk_0.wav'', error = None, transcript = Some ''hello''\<rparr>]
      \<Longrightarrow> \<exists>i. chunk_id r = ''a_chunk_b'' @ delimiter @ py_str i"
    by auto
  show ?thesis
    using name_with_delimiter_fails_merging[where chunks_results = "[\<lparr>chunk_id = ''a_chunk_b_chunk_0'',
        file_name = ''a_chunk_b_chunk_0.wav'', error = None, transcript = Some ''hello''\<rparr>]",
        OF h1 h2 _ h4] h1 h2 seg
    by simp
qed

text \<open>
  The claim as stated fails: the base name \<^verbatim>\<open>meeting_chunk_3\<close> contains the delimiter,
  the index segment is \<^verbatim>\<open>3\<close>, and merging succeeds.
\<close>

theorem name_with_integer_segment_merges:
  "py_in delimiter ''meeting_chunk_3''
   \<and> merge_transcripts
        [\<lparr>chunk_id = ''meeting_chunk_3_chunk_0'', file_name = ''meeting_chunk_3_chunk_0.wav'',
          error = None, transcript = Some ''good''\<rparr>,
         \<lparr>chunk_id = ''meeting_chunk_3_chunk_1'', file_name = ''meeting_chunk_3_chunk_1.wav'',
          error = None, transcript = Some ''morning''\<rparr>]
       = Inr ''good morning''"
  by (simp add: eval_merge)

text \<open>
  C1 at the input file \<^verbatim>\<open>a_chunk_5.wav\<close> with two chunks: both chunk ids give the sort
  key 5, the stable sort keeps the order of collection, and the transcript text
  follows the order in which the two workers finished.
\<close>

theorem transcript_order_follows_collection_order:
  "merge_transcripts
     [\<lparr>chunk_id = ''a_chunk_5_chunk_1'', file_name = ''a_chunk_5_chunk_1.wav'',
       error = None, transcript = Some ''second''\<rparr>,
      \<lparr>chunk_id = ''a_chunk_5_chunk_0'', file_name = ''a_chunk_5_chunk_0.wav'',
       error = None, transcript = Some ''first''\<rparr>]
   = Inr ''second first''
   \<and> merge_transcripts
     [\<lparr>chunk_id = ''a_chunk_5_chunk_0'', file_name = ''a_chunk_5_chunk_0.wav'',
       error = None, transcript = Some ''first''\<rparr>,
      \<lparr>chunk_id = ''a_chunk_5_chunk_1'', file_name = ''a_chunk_5_chunk_1.wav'',
       error = None, transcript = Some ''second''\<rparr>]
   = Inr ''first second''"
  by (simp add: eval_merge)

text \<open>
  C2 at the input file \<^verbatim>\<open>a_chunk.wav\<close> whose only chunk came back with an empty
  transcript: the sort raises before the transcripts are looked at, and the result
  is the transcript-merging failure, not the failure for an empty transcript.
\<close>

theorem empty_transcripts_end_in_merging_failure:
  "merge_transcripts
     [\<lparr>chunk_id = ''a_chunk_chunk_0'', file_name = ''a_chunk_chunk_0.wav'',
       error = None, transcript = Some []\<rparr>]
   = Inl (TranscriptMergingFailed (ValueError ''chunk_0''))"
  by (simp add: eval_merge)

lemma truthy_transcripts_none:
  "\<forall>r \<in> set rs. transcript r = None \<or> transcript r = Some []
   \<Longrightarrow> truthy_transcripts rs = []"
  by (induction rs) (auto split: option.splits)

lemma truthy_transcripts_mset:
  "mset xs = mset ys \<Longrightarrow> mset (truthy_transcripts xs) = mset (truthy_transcripts ys)"
proof -
  have "mset (truthy_transcripts xs)
        = image_mset (\<lambda>r. the (transcript r)) (filter_mset (\<lambda>r. truthy (transcript r)) (mset xs))" for xs
    by (induction xs) (auto simp: truthy_def split: option.splits)
  then show "mset xs = mset ys \<Longrightarrow> ?thesis" by simp
qed

lemma py_sorted_set:
  "py_sorted f xs = Inr ys \<Longrightarrow> mset ys = mset xs"
proof -
  assume a: "py_sorted f xs = Inr ys"
  then obtain ks where ks: "keys_of f xs = Inr ks" "ys = map snd (sort_key fst (zip ks xs))"
    by (auto simp: py_sorted_def split: sum.splits)
  have len: "length ks = length xs" using ks(1)
    by (induction xs arbitrary: ks) (auto split: sum.splits)
  have "mset ys = image_mset snd (mset (zip ks xs))" by (simp add: ks(2))
  also have "\<dots> = mset (map snd (zip ks xs))" by simp
  also have "\<dots> = mset xs" using len by simp
  finally show ?thesis .
qed

lemma merge_transcripts_nothing:
  assumes "\<And>r. r \<in> set rs \<Longrightarrow> transcript r = None \<or> transcript r = Some []"
  shows "merge_transcripts rs = Inl NoTranscript
         \<or> (\<exists>e. merge_transcripts rs = Inl (TranscriptMergingFailed e))"
proof (cases "py_sorted sort_index rs")
  case (Inl e)
  then show ?thesis by (simp add: merge_transcripts_def)
next
  case (Inr ys)
  then have "set ys = set rs" by (metis py_sorted_set mset_eq_setD)
  with assms have "truthy_transcripts ys = []" by (intro truthy_transcripts_none) auto
  with Inr show ?thesis by (simp add: merge_transcripts_def)
qed

lemma merge_transcripts_nothing_indexed:
  assumes "\<And>r. r \<in> set rs \<Longrightarrow> transcript r = None \<or> transcript r = Some []"
    and "\<And>r. r \<in> set rs \<Longrightarrow> \<exists>k. sort_index r = Inr k"
  shows "merge_transcripts rs = Inl NoTranscript"
proof -
  have "\<And>r. r \<in> set rs \<Longrightarrow> sort_index r = Inr (projr (sort_index r))"
    using assms(2) by fastforce
  then have "py_sorted sort_index rs = Inr (sort_key (\<lambda>r. projr (sort_index r)) rs)"
    by (rule py_sorted_Inr)
  moreover have "truthy_transcripts (sort_key (\<lambda>r. projr (sort_index r)) rs) = []"
    using assms(1) by (intro truthy_transcripts_none) auto
  ultimately show ?thesis by (simp add: merge_transcripts_def)
qed

lemma merge_transcripts_permutation:
  assumes fresh: "\<not> py_in delimiter (video_name @ ''_chunk'')"
    and ids: "\<And>r. r \<in> set rs \<Longrightarrow> chunk_id r = video_name @ delimiter @ py_str (idx r)"
    and inj: "inj_on idx (set rs)"
    and perm: "mset collected = mset rs"
  shows "merge_transcripts collected = merge_transcripts rs"
proof -
  have keys: "\<And>r. r \<in> set rs \<Longrightarrow> sort_index r = Inr (int (idx r))"
    using sort_index_chunk_id[OF fresh] ids by simp
  have "inj_on (\<lambda>r. int (idx r)) (set rs)" using inj by (auto simp: inj_on_def)
  with keys perm have "py_sorted sort_index collected = py_sorted sort_index rs"
    by (intro py_sorted_permutation) auto
  then show ?thesis by (simp add: merge_transcripts_def)
qed

lemma merge_transcripts_ascending:
  assumes fresh: "\<not> py_in delimiter (video_name @ ''_chunk'')"
    and ids: "\<And>r. r \<in> set rs \<Longrightarrow> chunk_id r = video_name @ delimiter @ py_str (idx r)"
    and asc: "sorted (map idx rs)"
  shows "merge_transcripts rs
         = (let full_transcript = py_join '' '' (truthy_transcripts rs)
            in if full_transcript = [] then Inl NoTranscript else Inr full_transcript)"
proof -
  have keys: "\<And>r. r \<in> set rs \<Longrightarrow> sort_index r = Inr (int (idx r))"
    using sort_index_chunk_id[OF fresh] ids by simp
  then have "py_sorted sort_index rs = Inr (sort_key (\<lambda>r. int (idx r)) rs)"
    by (rule py_sorted_Inr)
  moreover have "sorted (map (\<lambda>r. int (idx r)) rs)"
    using asc by (simp add: sorted_wrt_map sorted_map)
  ultimately have "py_sorted sort_index rs = Inr rs" by (simp add: sort_key_id_if_sorted)
  then show ?thesis by (simp add: merge_transcripts_def)
qed

section \<open>Properties of the Chunk Splitter\<close>

lemma range_up_length:
  "0 < step \<Longrightarrow> length (range_up start stop step) = nat ((stop - start + step - 1) div step)"
proof (induction start stop step rule: range_up.induct)
  case (1 start stop step)
  show ?case
  proof (cases "start < stop")
    case True
    have e1: "stop - start + step - 1 = (stop - start - 1) + step" by simp
    have e2: "stop - (start + step) + step - 1 = stop - start - 1" by simp
    have "(stop - start + step - 1) div step = (stop - (start + step) + step - 1) div step + 1"
      unfolding e1 e2 using \<open>0 < step\<close> by simp
    moreover have "0 \<le> (stop - (start + step) + step - 1) div step"
      using True \<open>0 < step\<close> by (simp add: pos_imp_zdiv_nonneg_iff)
    ultimately show ?thesis
      using 1 True by (subst range_up.simps) (simp add: nat_add_distrib)
  next
    case False
    then have "stop - start + step - 1 < step" by simp
    then have "stop - start + step - 1 \<le> step - 1" by simp
    then have "(stop - start + step - 1) div step \<le> (step - 1) div step"
      using \<open>0 < step\<close> by (intro zdiv_mono1) simp_all
    moreover have "(step - 1) div step = 0" using \<open>0 < step\<close> by simp
    ultimately have "(stop - start + step - 1) div step \<le> 0" by simp
    with False show ?thesis by (subst range_up.simps) simp
  qed
qed

lemma range_up_nth:
  "0 < step \<Longrightarrow> i < length (range_up start stop step)
   \<Longrightarrow> range_up start stop step ! i = start + int i * step"
proof (induction start stop step arbitrary: i rule: range_up.induct)
  case (1 start stop step)
  show ?case
  proof (cases "start < stop")
    case True
    then have unfold: "range_up start stop step = start # range_up (start + step) stop step"
      using \<open>0 < step\<close> by (subst range_up.simps) simp
    show ?thesis
    proof (cases i)
      case 0
      then show ?thesis by (simp add: unfold)
    next
      case (Suc j)
      with "1.prems" unfold have "j < length (range_up (start + step) stop step)" by simp
      with "1.IH" True "1.prems"(1) have "range_up (start + step) stop step ! j = start + step + int j * step"
        by simp
      then show ?thesis by (simp add: unfold Suc algebra_simps)
    qed
  next
    case False
    then have "range_up start stop step = []" by (subst range_up.simps) simp
    with "1.prems" show ?thesis by simp
  qed
qed


lemma div_round_up:
  fixes a b :: int
  assumes "0 < b"
  shows "(a + b - 1) div b = (if a mod b = 0 then a div b else a div b + 1)"
proof -
  have e: "a + b - 1 = b * (a div b) + (a mod b + b - 1)" by simp
  have "(a + b - 1) div b = a div b + (a mod b + b - 1) div b"
    unfolding e using assms by (subst div_mult_self4) simp_all
  moreover have "(a mod b + b - 1) div b = (if a mod b = 0 then 0 else 1)"
  proof (cases "a mod b = 0")
    case True
    then show ?thesis using assms by simp
  next
    case False
    have "0 \<le> a mod b" "a mod b < b" using assms by simp_all
    with False have "0 \<le> a mod b - 1" "a mod b - 1 < b" by linarith+
    then have "(a mod b - 1) div b = 0" by (rule div_pos_pos_trivial)
    moreover have "a mod b + b - 1 = (a mod b - 1) + b" by simp
    ultimately show ?thesis using False assms by (simp only: div_add_self2) simp
  qed
  ultimately show ?thesis by simp
qed

lemma ceiling_div_int:
  fixes a b :: int
  assumes "0 < b"
  shows "\<lceil>rat_of_int a / rat_of_int b\<rceil> = (a + b - 1) div b"
proof -
  have "\<lceil>rat_of_int a / rat_of_int b\<rceil> = - (- a div b)" by (rule ceiling_divide_eq_div)
  also have "\<dots> = (if a mod b = 0 then a div b else a div b + 1)"
    using assms by (simp add: zdiv_zminus1_eq_if)
  also have "\<dots> = (a + b - 1) div b"
    using assms by (simp only: div_round_up)
  finally show ?thesis .
qed

lemma chunk_window:
  fixes len cl :: int and i :: nat
  assumes "0 < cl" and "int i < (len + cl - 1) div cl"
  shows "int i * cl < len"
    and "min (int i * cl + cl) len - int i * cl
         = (if int i + 1 < (len + cl - 1) div cl then cl
            else if len mod cl = 0 then cl else len mod cl)"
proof -
  define q where "q = len div cl"
  define r where "r = len mod cl"
  have len: "len = q * cl + r" by (simp add: q_def r_def)
  have r: "0 \<le> r" "r < cl" using assms(1) by (simp_all add: r_def)
  have n: "(len + cl - 1) div cl = (if r = 0 then q else q + 1)"
    unfolding q_def r_def using assms(1) by (rule div_round_up)
  have rest: "len - int i * cl = (q - int i) * cl + r" by (simp add: len algebra_simps)
  have iq: "int i \<le> q" using assms(2) n by (simp split: if_splits)
  have ge: "cl \<le> (q - int i) * cl" if "int i < q"
  proof -
    from that have "1 \<le> q - int i" by simp
    then have "1 * cl \<le> (q - int i) * cl" using assms(1) by (intro mult_right_mono) simp_all
    then show ?thesis by simp
  qed
  show "int i * cl < len"
  proof (cases "int i < q")
    case True
    from ge[OF True] rest r assms(1) show ?thesis by linarith
  next
    case False
    with iq have "int i = q" by simp
    moreover then have "r \<noteq> 0" using assms(2) n by (simp split: if_splits)
    ultimately show ?thesis using rest r by simp
  qed
  have m: "min (int i * cl + cl) len - int i * cl = min cl (len - int i * cl)" by simp
  show "min (int i * cl + cl) len - int i * cl
         = (if int i + 1 < (len + cl - 1) div cl then cl
            else if len mod cl = 0 then cl else len mod cl)"
  proof (cases "int i < q")
    case True
    from ge[OF True] rest r have "cl \<le> len - int i * cl" by linarith
    then have "min cl (len - int i * cl) = cl" by simp
    moreover have "int i + 1 < (len + cl - 1) div cl \<or> len mod cl = 0"
      using True n by (auto simp: r_def split: if_splits)
    ultimately show ?thesis unfolding m by auto
  next
    case False
    with iq have eq: "int i = q" by simp
    then have r0: "r \<noteq> 0" using assms(2) n by (simp split: if_splits)
    have "len - int i * cl = r" using rest eq by simp
    then have "min cl (len - int i * cl) = r" using r by simp
    moreover have "\<not> int i + 1 < (len + cl - 1) div cl" using eq n r0 by simp
    ultimately show ?thesis unfolding m using r0 by (simp add: r_def)
  qed
qed


lemma range_up_empty: "0 < step \<Longrightarrow> (range_up start stop step = []) = (stop \<le> start)"
  by (subst range_up.simps) simp

text \<open>
  C3. For an audio of \<open>len_ms\<close> milliseconds, that is of \<open>C = len_ms / 1000\<close> seconds, and
  every chunk length of \<open>L > 0\<close> seconds, the splitter produces \<open>ceil(C / L)\<close> chunks, that
  is \<open>ceil(len_ms / (1000 L))\<close>; the chunk at position \<open>i\<close> carries the index \<open>i\<close> in its
  file name and starts at \<open>i\<close> chunk lengths; every chunk lasts \<open>L\<close> seconds except the last,
  which lasts \<open>C mod L\<close> seconds, or \<open>L\<close> when \<open>L\<close> divides \<open>C\<close>; and when there is no
  chunk the result is the failure \<^verbatim>\<open>Failed to split audio into chunks\<close>.
\<close>

theorem split_audio_chunks:
  assumes "chunks_dir \<noteq> []"
    and "load_audio w audio_path = Inr a"
    and "0 < chunk_length_sec"
  shows "\<exists>audio_chunks.
     int (length audio_chunks) = \<lceil>rat_of_nat (len_ms a) / rat_of_int (chunk_length_sec * 1000)\<rceil>
     \<and> fst (split_audio w video_name audio_path chunks_dir chunk_length_sec files)
         = (if audio_chunks = [] then Inl NoChunks else Inr audio_chunks)
     \<and> (\<forall>i < length audio_chunks.
           chunk_file (audio_chunks ! i)
             = path_join chunks_dir (video_name @ ''_chunk_'' @ py_str i @ ''.wav'')
           \<and> start_ms (audio_chunks ! i) = int i * (chunk_length_sec * 1000)
           \<and> end_ms (audio_chunks ! i) - start_ms (audio_chunks ! i)
               = (if i + 1 < length audio_chunks then chunk_length_sec * 1000
                  else if int (len_ms a) mod (chunk_length_sec * 1000) = 0
                       then chunk_length_sec * 1000
                       else int (len_ms a) mod (chunk_length_sec * 1000)))"
proof -
  define cl where "cl = chunk_length_sec * 1000"
  define len where "len = int (len_ms a)"
  define starts where "starts = range_up 0 len cl"
  define audio_chunks where
    "audio_chunks = map (cut_chunk a video_name chunks_dir cl) (enumerate 0 starts)"
  have cl: "0 < cl" using assms(3) by (simp add: cl_def)
  have n: "int (length starts) = (len + cl - 1) div cl"
  proof -
    have "0 \<le> (len + cl - 1) div cl"
      using cl by (simp add: pos_imp_zdiv_nonneg_iff len_def)
    then show ?thesis using range_up_length[OF cl, of 0 len] by (simp add: starts_def)
  qed
  have length: "length audio_chunks = length starts" by (simp add: audio_chunks_def)
  have ceil: "int (length audio_chunks) = \<lceil>rat_of_nat (len_ms a) / rat_of_int cl\<rceil>"
    using ceiling_div_int[OF cl, of len] n length by (simp add: len_def)
  have run: "fst (split_audio w video_name audio_path chunks_dir chunk_length_sec files)
             = (if audio_chunks = [] then Inl NoChunks else Inr audio_chunks)"
    using assms cl
    by (simp add: split_audio_def makedirs_def py_range_def audio_chunks_def starts_def
        cl_def len_def Let_def)
  have each: "chunk_file (audio_chunks ! i)
                = path_join chunks_dir (video_name @ ''_chunk_'' @ py_str i @ ''.wav'')
              \<and> start_ms (audio_chunks ! i) = int i * cl
              \<and> end_ms (audio_chunks ! i) - start_ms (audio_chunks ! i)
                  = (if i + 1 < length audio_chunks then cl
                     else if len mod cl = 0 then cl else len mod cl)"
    if i: "i < length audio_chunks" for i
  proof -
    from i length have il: "i < length starts" by simp
    then have start: "starts ! i = int i * cl"
      using range_up_nth[OF cl, of i 0 len] by (simp add: starts_def)
    from il n have bound: "int i < (len + cl - 1) div cl" by simp
    have lt: "int i * cl < len" using chunk_window(1)[OF cl bound] .
    have dur: "min (int i * cl + cl) len - int i * cl
               = (if int i + 1 < (len + cl - 1) div cl then cl
                  else if len mod cl = 0 then cl else len mod cl)"
      using chunk_window(2)[OF cl bound] .
    have "(int i + 1 < int (length starts)) = (i + 1 < length starts)" by linarith
    then have cond: "(int i + 1 < (len + cl - 1) div cl) = (i + 1 < length audio_chunks)"
      by (simp only: n length)
    have nth: "audio_chunks ! i = cut_chunk a video_name chunks_dir cl (i, starts ! i)"
      using il by (simp add: audio_chunks_def nth_enumerate_eq)
    show ?thesis
      using lt dur cond
      by (simp add: nth start cut_chunk_def slice_def chunk_file_name_def len_def[symmetric])
  qed
  show ?thesis
    using ceil run each unfolding cl_def len_def by blast
qed

theorem split_audio_chunks_witness:
  "''t/talk_chunks'' \<noteq> []
   \<and> load_audio example_world ''t/talk.wav'' = Inr \<lparr>len_ms = 150000, raw_size = 4800000\<rparr>
   \<and> 0 < (60 :: int)
   \<and> (\<exists>audio_chunks.
        length audio_chunks = 3
        \<and> fst (split_audio example_world ''talk'' ''t/talk.wav'' ''t/talk_chunks'' 60 {''t''})
            = Inr audio_chunks
        \<and> (\<forall>i < length audio_chunks.
              chunk_file (audio_chunks ! i)
                = path_join ''t/talk_chunks'' (''talk'' @ ''_chunk_'' @ py_str i @ ''.wav'')
              \<and> start_ms (audio_chunks ! i) = int i * (60 * 1000)
              \<and> end_ms (audio_chunks ! i) - start_ms (audio_chunks ! i)
                  = (if i + 1 < length audio_chunks then 60000 else 30000)))"
proof -
  have h1: "''t/talk_chunks'' \<noteq> []" by simp
  have h2: "load_audio example_world ''t/talk.wav'' = Inr \<lparr>len_ms = 150000, raw_size = 4800000\<rparr>"
    by (simp add: example_world_def)
  have h3: "0 < (60 :: int)" by simp
  have ceil: "\<lceil>rat_of_nat 150000 / rat_of_int (60 * 1000)\<rceil> = 3"
    using ceiling_div_int[of "60 * 1000" 150000] by simp
  from split_audio_chunks[OF h1 h2 h3, of "''talk''" "{''t''}"]
  obtain cs where cs:
    "int (length cs)
       = \<lceil>rat_of_nat (len_ms \<lparr>len_ms = 150000, raw_size = 4800000\<rparr>) / rat_of_int (60 * 1000)\<rceil>"
    "fst (split_audio example_world ''talk'' ''t/talk.wav'' ''t/talk_chunks'' 60 {''t''})
       = (if cs = [] then Inl NoChunks else Inr cs)"
    "\<forall>i < length cs.
       chunk_file (cs ! i) = path_join ''t/talk_chunks'' (''talk'' @ ''_chunk_'' @ py_str i @ ''.wav'')
       \<and> start_ms (cs ! i) = int i * (60 * 1000)
       \<and> end_ms (cs ! i) - start_ms (cs ! i)
           = (if i + 1 < length cs then 60 * 1000
              else if int (len_ms \<lparr>len_ms = 150000, raw_size = 4800000\<rparr>) mod (60 * 1000) = 0
                   then 60 * 1000
                   else int (len_ms \<lparr>len_ms = 150000, raw_size = 4800000\<rparr>) mod (60 * 1000))"
    by blast
  have "int (length cs) = 3" using cs(1) ceil by simp
  then have len3: "length cs = 3" by simp
  then have ne: "cs \<noteq> []" by auto
  have each: "chunk_file (cs ! i) = path_join ''t/talk_chunks'' (''talk'' @ ''_chunk_'' @ py_str i @ ''.wav'')
       \<and> start_ms (cs ! i) = int i * (60 * 1000)
       \<and> end_ms (cs ! i) - start_ms (cs ! i) = (if i + 1 < length cs then 60000 else 30000)"
    if "i < length cs" for i
    using cs(3)[rule_format, OF that] by (simp cong: if_cong)
  then have every: "\<forall>i < length cs.
       chunk_file (cs ! i) = path_join ''t/talk_chunks'' (''talk'' @ ''_chunk_'' @ py_str i @ ''.wav'')
       \<and> start_ms (cs ! i) = int i * (60 * 1000)
       \<and> end_ms (cs ! i) - start_ms (cs ! i) = (if i + 1 < length cs then 60000 else 30000)"
    by blast
  have run: "fst (split_audio example_world ''talk'' ''t/talk.wav'' ''t/talk_chunks'' 60 {''t''})
       = Inr cs"
    using cs(2) ne by simp
  show ?thesis
    using h1 h2 h3 len3 run every by blast
qed

section \<open>Properties of the Transcription Client\<close>

lemma whisper_with_key:
  assumes "getenv w ''OPENAI_API_KEY'' = Some api_key" and "api_key \<noteq> []"
    and "whisper w api_key p = WhisperText t"
  shows "transcribe_with_openai_whisper w p = (Inr (TextJson t, t), [WhisperPost api_key p])"
  using assms by (simp add: transcribe_with_openai_whisper_def)

lemma whisper_without_key:
  assumes "\<not> truthy (getenv w ''OPENAI_API_KEY'')"
  shows "transcribe_with_openai_whisper w p
         = (Inr (ErrorJson ''OpenAI API key not found in environment variables'', []), [])"
  using assms by (auto simp: transcribe_with_openai_whisper_def truthy_def split: option.splits)

lemma transcribe_windows_texts:
  assumes "getenv w ''OPENAI_API_KEY'' = Some api_key" and "api_key \<noteq> []"
    and "\<And>p. whisper w api_key p = WhisperText (text p)"
    and "\<And>p. remove_raises w p = None"
  shows "transcribe_windows w tmp file_path (enumerate k chunks) so_far (files, trace)
         = (Inr (so_far @ concat (map (\<lambda>i. text (sub_window_path tmp file_path i) @ '' '')
                                   [k ..< k + length chunks])),
            files - (\<lambda>i. sub_window_path tmp file_path i) ` {k ..< k + length chunks},
            trace @ concat (map (\<lambda>i. [Export (sub_window_path tmp file_path i),
                                       WhisperPost api_key (sub_window_path tmp file_path i),
                                       Remove (sub_window_path tmp file_path i)])
                             [k ..< k + length chunks]))"
proof (induction chunks arbitrary: k so_far files trace)
  case Nil
  then show ?case by simp
next
  case (Cons c chunks)
  have call: "transcribe_with_openai_whisper w (sub_window_path tmp file_path k)
        = (Inr (TextJson (text (sub_window_path tmp file_path k)),
                text (sub_window_path tmp file_path k)),
           [WhisperPost api_key (sub_window_path tmp file_path k)])"
    using assms(1-3) by (intro whisper_with_key) auto
  have "[k ..< k + length (c # chunks)] = k # [Suc k ..< k + length (c # chunks)]"
    by (rule upt_conv_Cons) simp
  then have up: "[k ..< k + length (c # chunks)] = k # [Suc k ..< Suc k + length chunks]"
    by simp
  have files: "remove_file (sub_window_path tmp file_path k)
                 (export (sub_window_path tmp file_path k) files)
               - (\<lambda>i. sub_window_path tmp file_path i) ` {Suc k ..< Suc (k + length chunks)}
             = files - (\<lambda>i. sub_window_path tmp file_path i) ` {k ..< Suc (k + length chunks)}"
  proof -
    have "{k ..< Suc (k + length chunks)} = insert k {Suc k ..< Suc (k + length chunks)}"
      by auto
    then show ?thesis by (auto simp: remove_file_def export_def)
  qed
  show ?case
    unfolding up
    by (cases c) (simp add: call assms(4) Cons.IH files Let_def del: upt_Suc)
qed

lemma transcribe_windows_without_key:
  assumes "\<not> truthy (getenv w ''OPENAI_API_KEY'')"
    and "\<And>p. remove_raises w p = None"
  shows "transcribe_windows w tmp file_path (enumerate k chunks) so_far (files, trace)
         = (Inr (so_far @ replicate (length chunks) CHR '' ''),
            files - (\<lambda>i. sub_window_path tmp file_path i) ` {k ..< k + length chunks},
            trace @ concat (map (\<lambda>i. [Export (sub_window_path tmp file_path i),
                                       Remove (sub_window_path tmp file_path i)])
                             [k ..< k + length chunks]))"
proof (induction chunks arbitrary: k so_far files trace)
  case Nil
  then show ?case by simp
next
  case (Cons c chunks)
  have call: "transcribe_with_openai_whisper w (sub_window_path tmp file_path k)
        = (Inr (ErrorJson ''OpenAI API key not found in environment variables'', []), [])"
    using assms(1) by (rule whisper_without_key)
  have "[k ..< k + length (c # chunks)] = k # [Suc k ..< k + length (c # chunks)]"
    by (rule upt_conv_Cons) simp
  then have up: "[k ..< k + length (c # chunks)] = k # [Suc k ..< Suc k + length chunks]"
    by simp
  have files: "remove_file (sub_window_path tmp file_path k)
                 (export (sub_window_path tmp file_path k) files)
               - (\<lambda>i. sub_window_path tmp file_path i) ` {Suc k ..< Suc (k + length chunks)}
             = files - (\<lambda>i. sub_window_path tmp file_path i) ` {k ..< Suc (k + length chunks)}"
  proof -
    have "{k ..< Suc (k + length chunks)} = insert k {Suc k ..< Suc (k + length chunks)}"
      by auto
    then show ?thesis by (auto simp: remove_file_def export_def)
  qed
  have sp: "so_far @ CHR '' '' # replicate (length chunks) CHR '' ''
            = (so_far @ '' '') @ replicate (length chunks) CHR '' ''"
    by simp
  show ?case
    unfolding up
    by (cases c) (simp add: call assms(2) Cons.IH files Let_def replicate_app_Cons_same del: upt_Suc)
qed

lemma audio_to_text_single_call_oversize:
  assumes "load_audio w file_path = Inr a"
    and "upload_limit < raw_size a" and "0 < len_ms a"
  shows "audio_to_text_single_call w file_path tmp st
         = (case transcribe_windows w tmp file_path
                   (enumerate 0
                      (make_chunks a
                         (float_div (py_float (int upload_limit))
                            (int_true_div (int (raw_size a)) (int (len_ms a))))))
                   [] st of
              (Inl e, st1) \<Rightarrow> (ErrorField e, st1)
            | (Inr t, st1) \<Rightarrow> (TranscriptField t, st1))"
  using assms by (simp add: audio_to_text_single_call_def Let_def)

lemma audio_to_text_single_call_with_key:
  assumes "load_audio w file_path = Inr a"
    and "getenv w ''OPENAI_API_KEY'' = Some api_key" and "api_key \<noteq> []"
    and "\<And>p. whisper w api_key p = WhisperText (text p)"
    and "\<And>p. remove_raises w p = None"
    and "upload_limit < raw_size a" and "0 < len_ms a"
    and "length (make_chunks a
                   (float_div (py_float (int upload_limit))
                      (int_true_div (int (raw_size a)) (int (len_ms a))))) = n"
  shows "audio_to_text_single_call w file_path tmp (files, trace)
         = (TranscriptField
              (concat (map (\<lambda>i. text (sub_window_path tmp file_path i) @ '' '') [0 ..< n])),
            files - (\<lambda>i. sub_window_path tmp file_path i) ` {0 ..< n},
            trace @ concat (map (\<lambda>i. [Export (sub_window_path tmp file_path i),
                                       WhisperPost api_key (sub_window_path tmp file_path i),
                                       Remove (sub_window_path tmp file_path i)])
                             [0 ..< n]))"
  unfolding audio_to_text_single_call_oversize[OF assms(1,6,7)]
    transcribe_windows_texts[OF assms(2-5)]
  by (simp add: assms(8))

lemma audio_to_text_single_call_without_key:
  assumes "load_audio w file_path = Inr a"
    and "\<not> truthy (getenv w ''OPENAI_API_KEY'')"
    and "\<And>p. remove_raises w p = None"
    and "upload_limit < raw_size a" and "0 < len_ms a"
    and "length (make_chunks a
                   (float_div (py_float (int upload_limit))
                      (int_true_div (int (raw_size a)) (int (len_ms a))))) = n"
  shows "audio_to_text_single_call w file_path tmp (files, trace)
         = (TranscriptField (replicate n CHR '' ''),
            files - (\<lambda>i. sub_window_path tmp file_path i) ` {0 ..< n},
            trace @ concat (map (\<lambda>i. [Export (sub_window_path tmp file_path i),
                                       Remove (sub_window_path tmp file_path i)])
                             [0 ..< n]))"
  unfolding audio_to_text_single_call_oversize[OF assms(1,4,5)]
    transcribe_windows_without_key[OF assms(2,3)]
  by (simp add: assms(6))

lemma make_chunks_length:
  "length (make_chunks a chunk_length)
   = nat \<lceil>float_div (py_float (int (len_ms a))) chunk_length\<rceil>"
  by (simp add: make_chunks_def Let_def)

lemma upload_limit_float: "rat_of_int (int upload_limit) = 25165824"
  by (simp add: upload_limit_def)

lemma example_duration:
  "float_div (py_float (int upload_limit)) (int_true_div 30000000 60000)
   = 3458764513820541 / 68719476736"
  by (simp only: float_div_def py_float_def int_true_div_def upload_limit_float of_int_numeral
      to_double_examples)

lemma example_window_count:
  "length (make_chunks \<lparr>len_ms = 60000, raw_size = 30000000\<rparr>
             (float_div (py_float (int upload_limit)) (int_true_div 30000000 60000))) = 2"
proof -
  have l: "rat_of_int (int (len_ms \<lparr>len_ms = 60000, raw_size = 30000000\<rparr>)) = 60000" by simp
  have "float_div (py_float (int (len_ms \<lparr>len_ms = 60000, raw_size = 30000000\<rparr>)))
          (float_div (py_float (int upload_limit)) (int_true_div 30000000 60000))
        = 78125 / 65536"
    unfolding example_duration by (simp only: float_div_def py_float_def l to_double_examples)
  moreover have "\<lceil>(78125 :: rat) / 65536\<rceil> = 2" by (rule ceiling_unique) simp_all
  ultimately show ?thesis by (simp only: make_chunks_length)
qed

text \<open>
  The quotients of the program are rounded, and the number of sub-windows is not always
  \<open>ceil(raw_size / limit)\<close>: a chunk of 249167 milliseconds that decodes to twice the
  limit is cut into three sub-windows, the third from 249166.99999999997 to 249167
  milliseconds.
\<close>

lemma rounding_adds_a_sub_window:
  "length (make_chunks \<lparr>len_ms = 249167, raw_size = 50331648\<rparr>
             (float_div (py_float (int upload_limit)) (int_true_div 50331648 249167))) = 3
   \<and> \<lceil>(50331648 :: rat) / rat_of_nat upload_limit\<rceil> = 2"
proof -
  have d: "float_div (py_float (int upload_limit)) (int_true_div 50331648 249167)
           = 8561312929939455 / 68719476736"
    by (simp only: float_div_def py_float_def int_true_div_def upload_limit_float of_int_numeral
        to_double_examples)
  have l: "rat_of_int (int (len_ms \<lparr>len_ms = 249167, raw_size = 50331648\<rparr>)) = 249167" by simp
  have "float_div (py_float (int (len_ms \<lparr>len_ms = 249167, raw_size = 50331648\<rparr>)))
          (float_div (py_float (int upload_limit)) (int_true_div 50331648 249167))
        = 4503599627370497 / 2251799813685248"
    unfolding d by (simp only: float_div_def py_float_def l to_double_examples)
  moreover have "\<lceil>(4503599627370497 :: rat) / 2251799813685248\<rceil> = 3"
    by (rule ceiling_unique) simp_all
  ultimately have "length (make_chunks \<lparr>len_ms = 249167, raw_size = 50331648\<rparr>
             (float_div (py_float (int upload_limit)) (int_true_div 50331648 249167))) = 3"
    by (simp only: make_chunks_length)
  moreover have "\<lceil>(50331648 :: rat) / rat_of_nat upload_limit\<rceil> = 2"
    by (simp add: upload_limit_def)
  ultimately show ?thesis by simp
qed

lemma example_sub_windows:
  "sub_window_path ''t'' ''t/talk_chunks/talk_chunk_0.wav'' 0 = ''t/talk_chunk_0.wav_chunk_0.wav''"
  "sub_window_path ''t'' ''t/talk_chunks/talk_chunk_0.wav'' (Suc 0) = ''t/talk_chunk_0.wav_chunk_1.wav''"
  by (simp_all add: upload_limit_def sub_window_path_def path_join_def basename_def
      py_str.simps digit_char_def suffix_to_prefix)

lemma upt_two: "[0 ..< 2] = [0, Suc 0]"
  by (simp add: numeral_2_eq_2)

lemma set_two: "{0 ..< 2 :: nat} = {0, Suc 0}"
  by auto

lemma example_oversize_facts:
  "load_audio (example_world\<lparr>load_audio := \<lambda>p. Inr \<lparr>len_ms = 60000, raw_size = 30000000\<rparr>\<rparr>) p
   = Inr \<lparr>len_ms = 60000, raw_size = 30000000\<rparr>"
  "getenv (example_world\<lparr>load_audio := \<lambda>p. Inr \<lparr>len_ms = 60000, raw_size = 30000000\<rparr>\<rparr>)
     ''OPENAI_API_KEY'' = Some ''sk-example''"
  "whisper (example_world\<lparr>load_audio := \<lambda>p. Inr \<lparr>len_ms = 60000, raw_size = 30000000\<rparr>\<rparr>)
     ''sk-example'' p = WhisperText ((\<lambda>p. ''hello'') p)"
  "remove_raises (example_world\<lparr>load_audio := \<lambda>p. Inr \<lparr>len_ms = 60000, raw_size = 30000000\<rparr>\<rparr>) p
   = None"
  "upload_limit < raw_size \<lparr>len_ms = 60000, raw_size = 30000000\<rparr>"
  "0 < len_ms \<lparr>len_ms = 60000, raw_size = 30000000\<rparr>"
  by (simp_all add: example_world_def upload_limit_def)

text \<open>
  C4 at a chunk of 60 seconds that decodes to 30000000 bytes, more than the limit, with
  a service that answers every upload with \<^verbatim>\<open>hello\<close>: the client cuts two sub-windows,
  exports, uploads and removes one after the other, and returns the transcript
  \<^verbatim>\<open>hello hello \<close>, with a space at its end, where the two texts joined by single spaces
  are \<^verbatim>\<open>hello hello\<close>.
\<close>

theorem oversize_transcript_ends_with_space:
  "audio_to_text_single_call
     (example_world\<lparr>load_audio := \<lambda>p. Inr \<lparr>len_ms = 60000, raw_size = 30000000\<rparr>\<rparr>)
     ''t/talk_chunks/talk_chunk_0.wav'' ''t'' ({''t''}, [])
   = (TranscriptField ''hello hello '',
      {''t''},
      [Export ''t/talk_chunk_0.wav_chunk_0.wav'',
       WhisperPost ''sk-example'' ''t/talk_chunk_0.wav_chunk_0.wav'',
       Remove ''t/talk_chunk_0.wav_chunk_0.wav'',
       Export ''t/talk_chunk_0.wav_chunk_1.wav'',
       WhisperPost ''sk-example'' ''t/talk_chunk_0.wav_chunk_1.wav'',
       Remove ''t/talk_chunk_0.wav_chunk_1.wav''])
   \<and> py_join '' '' [''hello'', ''hello''] = ''hello hello''"
proof -
  have n: "length (make_chunks \<lparr>len_ms = 60000, raw_size = 30000000\<rparr>
             (float_div (py_float (int upload_limit))
                (int_true_div (int (raw_size \<lparr>len_ms = 60000, raw_size = 30000000\<rparr>))
                   (int (len_ms \<lparr>len_ms = 60000, raw_size = 30000000\<rparr>))))) = 2"
    using example_window_count by simp
  show ?thesis
    using audio_to_text_single_call_with_key[OF example_oversize_facts(1,2) _
        example_oversize_facts(3,4,5,6) n, of "''t/talk_chunks/talk_chunk_0.wav''" "''t''"
        "{''t''}" "[]"]
    by (simp add: example_sub_windows upt_two set_two)
qed

text \<open>
  The same chunk without the credential: no upload is made, and the transcript of the
  chunk is two spaces, which is not empty.
\<close>

lemma oversize_chunk_without_key_is_blank:
  "audio_to_text_single_call
     (example_world\<lparr>getenv := \<lambda>k. None,
                    load_audio := \<lambda>p. Inr \<lparr>len_ms = 60000, raw_size = 30000000\<rparr>\<rparr>)
     ''t/talk_chunks/talk_chunk_0.wav'' ''t'' ({''t''}, [])
   = (TranscriptField ''  '',
      {''t''},
      [Export ''t/talk_chunk_0.wav_chunk_0.wav'', Remove ''t/talk_chunk_0.wav_chunk_0.wav'',
       Export ''t/talk_chunk_0.wav_chunk_1.wav'', Remove ''t/talk_chunk_0.wav_chunk_1.wav''])"
proof -
  let ?w = "example_world\<lparr>getenv := \<lambda>k. None,
                           load_audio := \<lambda>p. Inr \<lparr>len_ms = 60000, raw_size = 30000000\<rparr>\<rparr>"
  have f: "load_audio ?w ''t/talk_chunks/talk_chunk_0.wav''
           = Inr \<lparr>len_ms = 60000, raw_size = 30000000\<rparr>"
    "\<not> truthy (getenv ?w ''OPENAI_API_KEY'')"
    "\<And>p. remove_raises ?w p = None"
    by (simp_all add: example_world_def truthy_def)
  have n: "length (make_chunks \<lparr>len_ms = 60000, raw_size = 30000000\<rparr>
             (float_div (py_float (int upload_limit))
                (int_true_div (int (raw_size \<lparr>len_ms = 60000, raw_size = 30000000\<rparr>))
                   (int (len_ms \<lparr>len_ms = 60000, raw_size = 30000000\<rparr>))))) = 2"
    using example_window_count by simp
  have r: "replicate 2 CHR '' '' = ''  ''" by (simp add: numeral_2_eq_2)
  show ?thesis
    using audio_to_text_single_call_without_key[OF f example_oversize_facts(5,6) n,
        of "''t''" "{''t''}" "[]"]
    by (simp add: example_sub_windows upt_two set_two r)
qed

lemma process_audio_chunk_without_key:
  assumes "\<not> truthy (getenv w ''OPENAI_API_KEY'')"
    and "load_audio w chunk_path = Inr a" and "raw_size a \<le> upload_limit"
  shows "process_audio_chunk w tmp chunk_path st
         = (\<lparr>chunk_id = fst (splitext (basename chunk_path)), file_name = basename chunk_path,
             error = None, transcript = Some []\<rparr>, st)"
  using assms
  by (simp add: process_audio_chunk_def audio_to_text_single_call_def whisper_without_key)

lemma process_audio_chunk_error_body:
  assumes "getenv w ''OPENAI_API_KEY'' = Some api_key" and "api_key \<noteq> []"
    and "whisper w api_key chunk_path = WhisperError m"
    and "load_audio w chunk_path = Inr a" and "raw_size a \<le> upload_limit"
  shows "process_audio_chunk w tmp chunk_path st
         = (\<lparr>chunk_id = fst (splitext (basename chunk_path)), file_name = basename chunk_path,
             error = None, transcript = Some []\<rparr>, fst st, snd st @ [WhisperPost api_key chunk_path])"
  using assms
  by (simp add: process_audio_chunk_def audio_to_text_single_call_def
      transcribe_with_openai_whisper_def)

lemma process_audio_chunk_network_failure:
  assumes "getenv w ''OPENAI_API_KEY'' = Some api_key" and "api_key \<noteq> []"
    and "whisper w api_key chunk_path = WhisperRaises e"
    and "load_audio w chunk_path = Inr a" and "raw_size a \<le> upload_limit"
  shows "process_audio_chunk w tmp chunk_path st
         = (\<lparr>chunk_id = fst (splitext (basename chunk_path)), file_name = basename chunk_path,
             error = Some e, transcript = None\<rparr>, fst st, snd st @ [WhisperPost api_key chunk_path])"
  using assms
  by (simp add: process_audio_chunk_def audio_to_text_single_call_def
      transcribe_with_openai_whisper_def)

text \<open>
  C5 at a chunk under the size limit, first without the credential, then with a
  service that answers with an error body: in both runs the dictionary of the chunk
  has an empty transcript and no error, although \<^verbatim>\<open>transcribe_with_openai_whisper\<close> has
  made, or received, an error dictionary.
\<close>

theorem missing_credential_leaves_no_error:
  "process_audio_chunk (example_world\<lparr>getenv := \<lambda>k. None\<rparr>) ''t''
     ''t/talk_chunks/talk_chunk_0.wav'' ({''t''}, [])
   = (\<lparr>chunk_id = ''talk_chunk_0'', file_name = ''talk_chunk_0.wav'',
       error = None, transcript = Some []\<rparr>, {''t''}, [])
   \<and> process_audio_chunk (example_world\<lparr>whisper := \<lambda>api_key p. WhisperError ''invalid_api_key''\<rparr>)
       ''t'' ''t/talk_chunks/talk_chunk_0.wav'' ({''t''}, [])
   = (\<lparr>chunk_id = ''talk_chunk_0'', file_name = ''talk_chunk_0.wav'',
       error = None, transcript = Some []\<rparr>, {''t''},
      [WhisperPost ''sk-example'' ''t/talk_chunks/talk_chunk_0.wav''])"
proof -
  have names: "basename ''t/talk_chunks/talk_chunk_0.wav'' = ''talk_chunk_0.wav''"
    "fst (splitext ''talk_chunk_0.wav'') = ''talk_chunk_0''"
    by (simp_all add: basename_def splitext_def)
  have small: "raw_size \<lparr>len_ms = 150000, raw_size = 4800000\<rparr> \<le> upload_limit"
    by (simp add: upload_limit_def)
  have "process_audio_chunk (example_world\<lparr>getenv := \<lambda>k. None\<rparr>) ''t''
     ''t/talk_chunks/talk_chunk_0.wav'' ({''t''}, [])
   = (\<lparr>chunk_id = ''talk_chunk_0'', file_name = ''talk_chunk_0.wav'',
       error = None, transcript = Some []\<rparr>, {''t''}, [])"
    using process_audio_chunk_without_key[of "example_world\<lparr>getenv := \<lambda>k. None\<rparr>"
        "''t/talk_chunks/talk_chunk_0.wav''" "\<lparr>len_ms = 150000, raw_size = 4800000\<rparr>" "''t''"
        "({''t''}, [])"] small
    by (simp add: truthy_def example_world_def names)
  moreover have "process_audio_chunk
       (example_world\<lparr>whisper := \<lambda>api_key p. WhisperError ''invalid_api_key''\<rparr>)
       ''t'' ''t/talk_chunks/talk_chunk_0.wav'' ({''t''}, [])
   = (\<lparr>chunk_id = ''talk_chunk_0'', file_name = ''talk_chunk_0.wav'',
       error = None, transcript = Some []\<rparr>, {''t''},
      [WhisperPost ''sk-example'' ''t/talk_chunks/talk_chunk_0.wav''])"
    using process_audio_chunk_error_body[of
        "example_world\<lparr>whisper := \<lambda>api_key p. WhisperError ''invalid_api_key''\<rparr>"
        "''sk-example''" "''t/talk_chunks/talk_chunk_0.wav''" "''invalid_api_key''"
        "\<lparr>len_ms = 150000, raw_size = 4800000\<rparr>" "''t''" "({''t''}, [])"] small
    by (simp add: example_world_def names)
  ultimately show ?thesis by simp
qed

section \<open>Properties of the whole call\<close>


lemma no_chat_Nil [simp]: "no_chat []"
  by (simp add: no_chat_def)

lemma no_chat_append [simp]: "no_chat (xs @ ys) \<longleftrightarrow> no_chat xs \<and> no_chat ys"
  by (auto simp: no_chat_def)

lemma no_chat_whisper: "no_chat (snd (transcribe_with_openai_whisper w p))"
  by (auto simp: transcribe_with_openai_whisper_def no_chat_def
      split: option.splits whisper_reply.splits)

lemma no_chat_transcribe_windows:
  "no_chat (snd st) \<Longrightarrow> no_chat (snd (snd (transcribe_windows w tmp file_path chunks so_far st)))"
proof (induction chunks arbitrary: so_far st)
  case Nil
  then show ?case by simp
next
  case (Cons c chunks)
  obtain i win where c: "c = (i, win)" by (cases c)
  obtain files trace where st: "st = (files, trace)" by (cases st)
  obtain r posts where call:
    "transcribe_with_openai_whisper w (sub_window_path tmp file_path i) = (r, posts)"
    by (cases "transcribe_with_openai_whisper w (sub_window_path tmp file_path i)")
  have posts: "no_chat posts"
    using no_chat_whisper[of w "sub_window_path tmp file_path i"] call by simp
  show ?case
  proof (cases r)
    case (Inl e)
    with Cons.prems posts show ?thesis
      by (simp add: c st call Let_def no_chat_def)
  next
    case (Inr rt)
    obtain response t where rt: "rt = (response, t)" by (cases rt)
    show ?thesis
    proof (cases "remove_raises w (sub_window_path tmp file_path i)")
      case (Some e)
      with Cons.prems posts show ?thesis
        by (simp add: c st call Inr rt Let_def no_chat_def)
    next
      case None
      have "no_chat (snd (remove_file (sub_window_path tmp file_path i)
                            (export (sub_window_path tmp file_path i) files),
                          (trace @ [Export (sub_window_path tmp file_path i)]) @ posts
                            @ [Remove (sub_window_path tmp file_path i)]))"
        using Cons.prems posts by (simp add: st no_chat_def)
      from Cons.IH[OF this] show ?thesis
        by (simp add: c st call Inr rt None Let_def)
    qed
  qed
qed

lemma no_chat_whisper_eq:
  "transcribe_with_openai_whisper w p = (r, posts) \<Longrightarrow> no_chat posts"
  using no_chat_whisper[of w p] by simp

lemma no_chat_transcribe_windows_eq:
  "no_chat (snd st) \<Longrightarrow> transcribe_windows w tmp file_path chunks so_far st = (r, files', requests)
   \<Longrightarrow> no_chat requests"
  using no_chat_transcribe_windows[of st w tmp file_path chunks so_far] by simp

lemma no_chat_single_call:
  assumes "no_chat (snd st)"
  shows "no_chat (snd (snd (audio_to_text_single_call w file_path tmp st)))"
  using assms
  by (auto simp: audio_to_text_single_call_def Let_def
      dest: no_chat_transcribe_windows_eq no_chat_whisper_eq
      split: sum.splits prod.splits)

lemma no_chat_process_audio_chunk:
  "no_chat (snd st) \<Longrightarrow> no_chat (snd (snd (process_audio_chunk w tmp chunk_path st)))"
  using no_chat_single_call[of st w chunk_path tmp]
  by (auto simp: process_audio_chunk_def split: prod.splits)

lemma no_chat_run_workers:
  "no_chat (snd st) \<Longrightarrow> no_chat (snd (snd (run_workers w tmp chunk_paths st)))"
proof (induction chunk_paths arbitrary: st)
  case Nil
  then show ?case by simp
next
  case (Cons p ps)
  obtain r st1 where p: "process_audio_chunk w tmp p st = (r, st1)"
    by (cases "process_audio_chunk w tmp p st")
  with Cons.prems no_chat_process_audio_chunk[of st w tmp p] have "no_chat (snd st1)" by simp
  from Cons.IH[OF this] show ?case by (auto simp: p split: prod.splits)
qed

lemma no_chat_run_workers_eq:
  "run_workers w tmp chunk_paths (files, []) = (results, st) \<Longrightarrow> no_chat (snd st)"
  using no_chat_run_workers[of "(files, [])" w tmp chunk_paths] by simp

lemma summarize_chat_post:
  assumes "no_chat (snd st)"
    and "summarize w chunks_dir audio_path full_transcript st = (outcome, files', requests)"
    and "ChatPost api_key data \<in> set requests"
  shows "getenv w ''OPENAI_API_KEY'' = Some api_key \<and> api_key \<noteq> []
         \<and> data = request_body full_transcript
         \<and> outcome = (case chat w api_key data of
                         ChatRaises e \<Rightarrow> Error (SummarizationFailed e)
                       | ChatContent summary_text \<Rightarrow>
                           (case json_loads w summary_text of
                              None \<Rightarrow> ParseError summary_text
                            | Some summary_json \<Rightarrow> Summary summary_json))"
  using assms
  by (auto simp: summarize_def truthy_def no_chat_def Let_def
      split: if_splits option.splits chat_reply.splits)

lemma assemble_chat_post:
  assumes "no_chat (snd st)"
    and "assemble_and_summarize w chunks_dir audio_path chunks_results st = (outcome, files', requests)"
    and "ChatPost api_key data \<in> set requests"
  shows "outcome = (case chat w api_key data of
                         ChatRaises e \<Rightarrow> Error (SummarizationFailed e)
                       | ChatContent summary_text \<Rightarrow>
                           (case json_loads w summary_text of
                              None \<Rightarrow> ParseError summary_text
                            | Some summary_json \<Rightarrow> Summary summary_json))
         \<and> (\<exists>full_transcript. merge_transcripts chunks_results = Inr full_transcript
               \<and> data = request_body full_transcript)"
proof (cases "merge_transcripts chunks_results")
  case (Inl err)
  with assms show ?thesis by (auto simp: assemble_and_summarize_def no_chat_def)
next
  case (Inr full_transcript)
  with assms(2) have "summarize w chunks_dir audio_path full_transcript st = (outcome, files', requests)"
    by (simp add: assemble_and_summarize_def)
  from summarize_chat_post[OF assms(1) this assms(3)] Inr show ?thesis by simp
qed

lemma entry_point_cases:
  assumes "transcribe_and_summarize_video w video_path temp_dir provider concurrency_level
             chunk_length_sec is_url files = (outcome, files', requests)"
  shows "requests = []
         \<or> (\<exists>chunks_dir audio_path chunks_results st. no_chat (snd st)
               \<and> assemble_and_summarize w chunks_dir audio_path chunks_results st
                   = (outcome, files', requests))"
  using assms
  by (auto simp: transcribe_and_summarize_video_def Let_def
      dest!: no_chat_run_workers_eq
      split: sum.splits prod.splits if_splits)


text \<open>
  C6. Whenever a call has sent its chat-completion request and the service has answered
  it with a text that \<^verbatim>\<open>json.loads\<close> rejects, the call returns the dictionary with the
  error \<^verbatim>\<open>Failed to parse JSON summary\<close> and with that text, unchanged, as
  \<^verbatim>\<open>raw_summary\<close>; it returns no summary.
\<close>

theorem unparsable_summary_is_returned_raw:
  assumes "transcribe_and_summarize_video w video_path temp_dir provider concurrency_level
             chunk_length_sec is_url files = (outcome, files', requests)"
    and "ChatPost api_key data \<in> set requests"
    and "chat w api_key data = ChatContent summary_text"
    and "json_loads w summary_text = None"
  shows "outcome = ParseError summary_text"
proof -
  from assms(2) have "requests \<noteq> []" by auto
  with entry_point_cases[OF assms(1)] obtain chunks_dir audio_path chunks_results st where
    "no_chat (snd st)"
    "assemble_and_summarize w chunks_dir audio_path chunks_results st = (outcome, files', requests)"
    by auto
  from assemble_chat_post[OF this assms(2)] assms(3,4) show ?thesis by simp
qed

lemma example_names:
  "basename ''talk.mp4'' = ''talk.mp4''"
  "splitext ''talk.mp4'' = (''talk'', ''.mp4'')"
  "path_join ''t'' ''talk.wav'' = ''t/talk.wav''"
  "path_join ''t'' ''talk_chunks'' = ''t/talk_chunks''"
  "dirname ''t/talk.wav'' = ''t''"
  "path_join ''t/talk_chunks'' (chunk_file_name ''talk'' 0) = ''t/talk_chunks/talk_chunk_0.wav''"
  "basename ''t/talk_chunks/talk_chunk_0.wav'' = ''talk_chunk_0.wav''"
  "splitext ''talk_chunk_0.wav'' = (''talk_chunk_0'', ''.wav'')"
  by (simp_all add: basename_def splitext_def path_join_def dirname_def chunk_file_name_def
      py_str.simps digit_char_def suffix_to_prefix)

lemma example_file_type: "get_file_type guess ''talk.mp4'' = Video"
  by (simp add: get_file_type_def example_names lower_def lower_char_def video_extensions_def)

lemma example_normalize:
  assumes "\<And>command. ffmpeg w command = None"
  shows "normalize w ''talk.mp4'' ''talk'' ''t'' {''t'', ''talk.mp4''}
         = (Inr ''t/talk.wav'', {''t/talk.wav'', ''t'', ''talk.mp4''})"
  using assms
  by (simp add: normalize_def example_names example_file_type makedirs_def export_def Let_def
      insert_commute)

lemma example_split_audio:
  assumes "\<And>p. load_audio w p = Inr \<lparr>len_ms = 150000, raw_size = 4800000\<rparr>"
  shows "split_audio w ''talk'' ''t/talk.wav'' ''t/talk_chunks'' 150 {''t/talk.wav'', ''t'', ''talk.mp4''}
         = (Inr [\<lparr>chunk_file = ''t/talk_chunks/talk_chunk_0.wav'', start_ms = 0, end_ms = 150000\<rparr>],
            {''t/talk_chunks/talk_chunk_0.wav'', ''t/talk_chunks'', ''t/talk.wav'', ''t'', ''talk.mp4''})"
proof -
  have r: "range_up 0 150000 150000 = [0]"
    by (simp add: range_up.simps)
  show ?thesis
    using assms
    by (simp add: split_audio_def makedirs_def py_range_def r cut_chunk_def slice_def
        example_names export_def Let_def)
qed

lemma example_run:
  assumes "\<And>command. ffmpeg w command = None"
    and "\<And>p. load_audio w p = Inr \<lparr>len_ms = 150000, raw_size = 4800000\<rparr>"
  shows "transcribe_and_summarize_video w ''talk.mp4'' ''t'' None 5 150 False {''talk.mp4''}
         = (case process_audio_chunk w ''t'' ''t/talk_chunks/talk_chunk_0.wav''
                   ({''t/talk_chunks/talk_chunk_0.wav'', ''t/talk_chunks'', ''t/talk.wav'', ''t'',
                     ''talk.mp4''}, []) of
              (r, st) \<Rightarrow> assemble_and_summarize w ''t/talk_chunks'' ''t/talk.wav'' [r] st)"
  by (simp add: transcribe_and_summarize_video_def makedirs_def example_names
      example_normalize[OF assms(1)] example_split_audio[OF assms(2)] as_completed_def
      split: prod.splits)

lemma path_join_cases:
  assumes "CHR ''/'' \<notin> set x"
  shows "path_join a x = a @ x \<or> path_join a x = a @ ''/'' @ x"
proof -
  have "\<not> prefix ''/'' x" using assms by (cases x) auto
  then show ?thesis by (simp add: path_join_def)
qed

lemma path_join_longer:
  "CHR ''/'' \<notin> set x \<Longrightarrow> x \<noteq> [] \<Longrightarrow> length a < length (path_join a x)"
  using path_join_cases[of x a] by auto

lemma path_join_last:
  "CHR ''/'' \<notin> set x \<Longrightarrow> x \<noteq> [] \<Longrightarrow> last (path_join a x) = last x"
  using path_join_cases[of x a] by auto

lemma sub_window_name_no_slash:
  "CHR ''/'' \<notin> set (basename file_path @ ''_chunk_'' @ py_str i @ ''.wav'')"
  using basename_has_no_slash[of file_path] py_str_no_slash[of i] by simp

lemma sub_window_path_last: "last (sub_window_path tmp file_path i) = CHR ''v''"
  unfolding sub_window_path_def
  using path_join_last[OF sub_window_name_no_slash, of file_path i tmp] by simp

lemma sub_window_path_longer: "length tmp < length (sub_window_path tmp file_path i)"
  unfolding sub_window_path_def
  using path_join_longer[OF sub_window_name_no_slash, of file_path i tmp] by simp


lemma temp_dir_kept: "kept_by_workers tmp tmp"
proof -
  have "tmp \<noteq> sub_window_path tmp file_path i" for file_path i
    using sub_window_path_longer[of tmp file_path i] by auto
  then show ?thesis by (simp add: kept_by_workers_def)
qed

lemma chunks_dir_kept:
  assumes "CHR ''/'' \<notin> set video_name"
  shows "kept_by_workers tmp (path_join tmp (video_name @ ''_chunks''))"
proof -
  have "last (path_join tmp (video_name @ ''_chunks'')) = CHR ''s''"
    using path_join_last[of "video_name @ ''_chunks''" tmp] assms by simp
  moreover have "last (sub_window_path tmp file_path i) = CHR ''v''" for file_path i
    by (rule sub_window_path_last)
  ultimately have "path_join tmp (video_name @ ''_chunks'') \<noteq> sub_window_path tmp file_path i"
    for file_path i
    by (auto dest!: arg_cong[where f = last])
  then show ?thesis by (simp add: kept_by_workers_def)
qed

lemma transcribe_windows_keeps:
  "kept_by_workers tmp q \<Longrightarrow> q \<in> fst st
   \<Longrightarrow> q \<in> fst (snd (transcribe_windows w tmp file_path chunks so_far st))"
proof (induction chunks arbitrary: so_far st)
  case Nil
  then show ?case by simp
next
  case (Cons c chunks)
  obtain i win where c: "c = (i, win)" by (cases c)
  obtain files trace where st: "st = (files, trace)" by (cases st)
  obtain r posts where call:
    "transcribe_with_openai_whisper w (sub_window_path tmp file_path i) = (r, posts)"
    by (cases "transcribe_with_openai_whisper w (sub_window_path tmp file_path i)")
  from Cons.prems have q: "q \<in> files" "q \<noteq> sub_window_path tmp file_path i"
    by (auto simp: st kept_by_workers_def)
  show ?case
  proof (cases r)
    case (Inl e)
    with q show ?thesis by (simp add: c st call Let_def export_def)
  next
    case (Inr rt)
    obtain response t where rt: "rt = (response, t)" by (cases rt)
    show ?thesis
    proof (cases "remove_raises w (sub_window_path tmp file_path i)")
      case (Some e)
      with q show ?thesis by (simp add: c st call Inr rt Let_def export_def)
    next
      case None
      have "q \<in> fst (remove_file (sub_window_path tmp file_path i)
                            (export (sub_window_path tmp file_path i) files),
                          (trace @ [Export (sub_window_path tmp file_path i)]) @ posts
                            @ [Remove (sub_window_path tmp file_path i)])"
        using q by (simp add: remove_file_def export_def)
      from Cons.IH[OF Cons.prems(1) this] show ?thesis
        by (simp add: c st call Inr rt None Let_def)
    qed
  qed
qed

lemma transcribe_windows_keeps_eq:
  "kept_by_workers tmp q \<Longrightarrow> q \<in> fst st
   \<Longrightarrow> transcribe_windows w tmp file_path chunks so_far st = (r, files', requests)
   \<Longrightarrow> q \<in> files'"
  using transcribe_windows_keeps[of tmp q st w file_path chunks so_far] by simp

lemma single_call_keeps:
  assumes "kept_by_workers tmp q" and "q \<in> fst st"
  shows "q \<in> fst (snd (audio_to_text_single_call w file_path tmp st))"
  using assms
  by (auto simp: audio_to_text_single_call_def Let_def
      dest: transcribe_windows_keeps_eq
      split: sum.splits prod.splits)

lemma process_audio_chunk_keeps:
  "kept_by_workers tmp q \<Longrightarrow> q \<in> fst st
   \<Longrightarrow> q \<in> fst (snd (process_audio_chunk w tmp chunk_path st))"
  using single_call_keeps[of tmp q st w chunk_path]
  by (auto simp: process_audio_chunk_def split: prod.splits)

lemma run_workers_keeps:
  "kept_by_workers tmp q \<Longrightarrow> q \<in> fst st
   \<Longrightarrow> q \<in> fst (snd (run_workers w tmp chunk_paths st))"
proof (induction chunk_paths arbitrary: st)
  case Nil
  then show ?case by simp
next
  case (Cons p ps)
  obtain r st1 where p: "process_audio_chunk w tmp p st = (r, st1)"
    by (cases "process_audio_chunk w tmp p st")
  with Cons.prems process_audio_chunk_keeps[of tmp q st w p] have "q \<in> fst st1" by simp
  from Cons.IH[OF Cons.prems(1) this] show ?case by (auto simp: p split: prod.splits)
qed

lemma run_workers_keeps_eq:
  "kept_by_workers tmp q \<Longrightarrow> q \<in> files
   \<Longrightarrow> run_workers w tmp chunk_paths (files, []) = (results, st) \<Longrightarrow> q \<in> fst st"
  using run_workers_keeps[of tmp q "(files, [])" w chunk_paths] by simp

lemma fetch_keeps: "fetch w url tmp files = (r, files') \<Longrightarrow> q \<in> files \<Longrightarrow> q \<in> files'"
  by (auto simp: fetch_def Let_def export_def split: sum.splits option.splits if_splits)

lemma normalize_keeps:
  "normalize w source video_name tmp files = (r, files') \<Longrightarrow> q \<in> files \<Longrightarrow> q \<in> files'"
  by (auto simp: normalize_def Let_def export_def makedirs_def
      split: sum.splits option.splits if_splits)

lemma normalize_audio_path:
  "normalize w source video_name tmp files = (Inr audio_path, files')
   \<Longrightarrow> audio_path = path_join tmp (video_name @ ''.wav'')"
  by (auto simp: normalize_def Let_def split: sum.splits option.splits if_splits)

lemma fold_export_keeps: "q \<in> files \<Longrightarrow> q \<in> fold export ps files"
  by (induction ps arbitrary: files) (simp_all add: export_def)

lemma split_audio_keeps:
  "split_audio w video_name audio_path chunks_dir chunk_length_sec files = (r, files')
   \<Longrightarrow> q \<in> files \<Longrightarrow> q \<in> files'"
  by (auto simp: split_audio_def Let_def makedirs_def fold_export_keeps
      split: sum.splits if_splits)

lemma split_audio_chunks_dir:
  "split_audio w video_name audio_path chunks_dir chunk_length_sec files = (Inr audio_chunks, files')
   \<Longrightarrow> chunks_dir \<in> files'"
  by (auto simp: split_audio_def Let_def makedirs_def fold_export_keeps
      split: sum.splits if_splits)


lemma summarize_files:
  assumes "summarize w chunks_dir audio_path full_transcript st = (outcome, files', requests)"
  shows "(files' = fst st \<and> (\<forall>j. outcome \<noteq> Summary j))
         \<or> (files' = clean_up w chunks_dir audio_path (fst st) \<and> (\<exists>j. outcome = Summary j))"
  using assms
  by (auto simp: summarize_def Let_def split: if_splits chat_reply.splits option.splits)

lemma assemble_files:
  assumes "assemble_and_summarize w chunks_dir audio_path chunks_results st
           = (outcome, files', requests)"
  shows "(files' = fst st \<and> (\<forall>j. outcome \<noteq> Summary j))
         \<or> (files' = clean_up w chunks_dir audio_path (fst st) \<and> (\<exists>j. outcome = Summary j))"
proof (cases "merge_transcripts chunks_results")
  case (Inl err)
  with assms show ?thesis by (auto simp: assemble_and_summarize_def)
next
  case (Inr full_transcript)
  with assms have "summarize w chunks_dir audio_path full_transcript st = (outcome, files', requests)"
    by (simp add: assemble_and_summarize_def)
  then show ?thesis by (rule summarize_files)
qed

lemma clean_up_removes:
  assumes "chunks_dir \<in> files"
    and "rmtree_raises w chunks_dir = None" and "remove_raises w audio_path = None"
  shows "chunks_dir \<notin> clean_up w chunks_dir audio_path files"
    and "audio_path \<notin> clean_up w chunks_dir audio_path files"
    and "\<forall>q \<in> clean_up w chunks_dir audio_path files. \<not> prefix (chunks_dir @ ''/'') q"
  using assms by (auto simp: clean_up_def rmtree_def remove_file_def Let_def)

lemma clean_up_keeps:
  assumes "q \<in> files" and "q \<noteq> chunks_dir" and "\<not> prefix (chunks_dir @ ''/'') q"
    and "q \<noteq> audio_path"
  shows "q \<in> clean_up w chunks_dir audio_path files"
  using assms
  by (auto simp: clean_up_def rmtree_def remove_file_def Let_def split: option.splits)

lemma clean_up_fails:
  assumes "chunks_dir \<in> files" and "rmtree_raises w chunks_dir = Some left"
  shows "chunks_dir \<in> clean_up w chunks_dir audio_path files"
    and "audio_path \<in> files \<Longrightarrow> \<not> prefix (chunks_dir @ ''/'') audio_path
         \<Longrightarrow> audio_path \<in> clean_up w chunks_dir audio_path files"
  using assms by (auto simp: clean_up_def)

lemma entry_point_stages:
  assumes "transcribe_and_summarize_video w video_path temp_dir provider concurrency_level
             chunk_length_sec is_url files = (outcome, files', requests)"
    and "temp_dir \<noteq> []"
  shows "(temp_dir \<in> files' \<and> (\<forall>j. outcome \<noteq> Summary j))
         \<or> (\<exists>source chunks_results st.
               (if is_url then fst (fetch w video_path temp_dir (insert temp_dir files)) = Inr source
                else source = video_path)
               \<and> temp_dir \<in> fst st
               \<and> path_join temp_dir (fst (splitext (basename source)) @ ''_chunks'') \<in> fst st
               \<and> assemble_and_summarize w
                    (path_join temp_dir (fst (splitext (basename source)) @ ''_chunks''))
                    (path_join temp_dir (fst (splitext (basename source)) @ ''.wav''))
                    chunks_results st
                   = (outcome, files', requests))"
proof -
  define files0 where "files0 = insert temp_dir files"
  have mk: "makedirs temp_dir files = Inr files0"
    using assms(2) by (simp add: makedirs_def files0_def)
  obtain r1 files1 where res:
    "(if is_url then fetch w video_path temp_dir files0 else (Inr video_path, files0)) = (r1, files1)"
    by (cases "if is_url then fetch w video_path temp_dir files0 else (Inr video_path, files0)")
  have t1: "temp_dir \<in> files1"
    using res fetch_keeps[of w video_path temp_dir files0 r1 files1 temp_dir]
    by (auto simp: files0_def split: if_splits)
  show ?thesis
  proof (cases r1)
    case (Inl e)
    with assms(1) mk res t1 show ?thesis
      by (auto simp: transcribe_and_summarize_video_def)
  next
    case (Inr source)
    define video_name where "video_name = fst (splitext (basename source))"
    define chunks_dir where "chunks_dir = path_join temp_dir (video_name @ ''_chunks'')"
    have src: "if is_url then fst (fetch w video_path temp_dir (insert temp_dir files)) = Inr source
               else source = video_path"
      using res Inr by (auto simp: files0_def split: if_splits)
    have vn: "CHR ''/'' \<notin> set video_name"
      unfolding video_name_def by (intro splitext_fst_no_slash basename_has_no_slash)
    obtain r2 files2 where nz: "normalize w source video_name temp_dir files1 = (r2, files2)"
      by (cases "normalize w source video_name temp_dir files1")
    have t2: "temp_dir \<in> files2" using normalize_keeps[OF nz t1] .
    show ?thesis
    proof (cases r2)
      case err: (Inl err)
      with assms(1) mk res Inr nz t2 show ?thesis
        by (auto simp: transcribe_and_summarize_video_def Let_def video_name_def)
    next
      case ap: (Inr audio_path)
      have apeq: "audio_path = path_join temp_dir (video_name @ ''.wav'')"
        using nz ap by (auto dest: normalize_audio_path)
      obtain r3 files3 where sp:
        "split_audio w video_name audio_path chunks_dir chunk_length_sec files2 = (r3, files3)"
        by (cases "split_audio w video_name audio_path chunks_dir chunk_length_sec files2")
      have t3: "temp_dir \<in> files3" using split_audio_keeps[OF sp t2] .
      show ?thesis
      proof (cases r3)
        case err: (Inl err)
        with assms(1) mk res Inr nz ap sp t3 show ?thesis
          by (auto simp: transcribe_and_summarize_video_def Let_def video_name_def chunks_dir_def)
      next
        case chunks: (Inr audio_chunks)
        have c3: "chunks_dir \<in> files3" using sp chunks by (auto dest: split_audio_chunks_dir)
        show ?thesis
        proof (cases "concurrency_level \<le> 0")
          case True
          with assms(1) mk res Inr nz ap sp chunks t3 show ?thesis
            by (auto simp: transcribe_and_summarize_video_def Let_def video_name_def chunks_dir_def)
        next
          case False
          obtain results st where rw:
            "run_workers w temp_dir (map chunk_file audio_chunks) (files3, []) = (results, st)"
            by (cases "run_workers w temp_dir (map chunk_file audio_chunks) (files3, [])")
          have t4: "temp_dir \<in> fst st"
            using run_workers_keeps_eq[OF temp_dir_kept t3 rw] .
          have c4: "chunks_dir \<in> fst st"
            using run_workers_keeps_eq[OF chunks_dir_kept[OF vn] _ rw] c3
            by (simp add: chunks_dir_def)
          have "assemble_and_summarize w chunks_dir audio_path
                  (as_completed (finish_time w) results) st = (outcome, files', requests)"
            using assms(1) mk res Inr nz ap sp chunks False rw
            by (simp add: transcribe_and_summarize_video_def Let_def video_name_def chunks_dir_def)
          with src t4 c4 show ?thesis
            unfolding chunks_dir_def apeq video_name_def by blast
        qed
      qed
    qed
  qed
qed

text \<open>
  C7, as amended. For every call with a \<^verbatim>\<open>temp_dir\<close> that is not the empty string, the
  directory \<^verbatim>\<open>temp_dir\<close> exists when the call returns, on every path: the entry point
  never removes it. When the call returns a summary and neither \<^verbatim>\<open>shutil.rmtree\<close> on the
  chunks directory nor \<^verbatim>\<open>os.remove\<close> on the canonical audio file has raised, the chunks
  directory, everything below it and the audio file are gone when the call returns.
\<close>

theorem temp_dir_outlives_the_call:
  assumes "transcribe_and_summarize_video w video_path temp_dir provider concurrency_level
             chunk_length_sec is_url files = (outcome, files', requests)"
    and "temp_dir \<noteq> []"
  shows "temp_dir \<in> files'
         \<and> (\<forall>j source.
               outcome = Summary j \<longrightarrow>
               (if is_url then fst (fetch w video_path temp_dir (insert temp_dir files)) = Inr source
                else source = video_path) \<longrightarrow>
               rmtree_raises w (path_join temp_dir (fst (splitext (basename source)) @ ''_chunks''))
                 = None \<longrightarrow>
               remove_raises w (path_join temp_dir (fst (splitext (basename source)) @ ''.wav''))
                 = None \<longrightarrow>
               path_join temp_dir (fst (splitext (basename source)) @ ''_chunks'') \<notin> files'
               \<and> (\<forall>q \<in> files'.
                     \<not> prefix (path_join temp_dir (fst (splitext (basename source)) @ ''_chunks'') @ ''/'') q)
               \<and> path_join temp_dir (fst (splitext (basename source)) @ ''.wav'') \<notin> files')"
proof -
  from entry_point_stages[OF assms]
  consider (early) "temp_dir \<in> files'" "\<forall>j. outcome \<noteq> Summary j"
    | (late) source chunks_results st where
        "if is_url then fst (fetch w video_path temp_dir (insert temp_dir files)) = Inr source
         else source = video_path"
        "temp_dir \<in> fst st"
        "path_join temp_dir (fst (splitext (basename source)) @ ''_chunks'') \<in> fst st"
        "assemble_and_summarize w
           (path_join temp_dir (fst (splitext (basename source)) @ ''_chunks''))
           (path_join temp_dir (fst (splitext (basename source)) @ ''.wav''))
           chunks_results st
         = (outcome, files', requests)"
    by blast
  then show ?thesis
  proof cases
    case early
    then show ?thesis by simp
  next
    case late
    define video_name where "video_name = fst (splitext (basename source))"
    define chunks_dir where "chunks_dir = path_join temp_dir (video_name @ ''_chunks'')"
    define audio_path where "audio_path = path_join temp_dir (video_name @ ''.wav'')"
    have vn: "CHR ''/'' \<notin> set video_name"
      unfolding video_name_def by (intro splitext_fst_no_slash basename_has_no_slash)
    have lc: "length temp_dir < length chunks_dir"
      unfolding chunks_dir_def using vn by (intro path_join_longer) auto
    have la: "length temp_dir < length audio_path"
      unfolding audio_path_def using vn by (intro path_join_longer) auto
    have ne: "temp_dir \<noteq> chunks_dir" "temp_dir \<noteq> audio_path" using lc la by auto
    have np: "\<not> prefix (chunks_dir @ ''/'') temp_dir"
      using lc by (auto dest: prefix_length_le)
    have only: "source' = source"
      if "if is_url then fst (fetch w video_path temp_dir (insert temp_dir files)) = Inr source'
          else source' = video_path" for source'
      using that late(1) by (auto split: if_splits)
    from assemble_files[OF late(4)]
    show ?thesis
    proof
      assume "files' = fst st \<and> (\<forall>j. outcome \<noteq> Summary j)"
      with late(2) show ?thesis by simp
    next
      assume a: "files' = clean_up w (path_join temp_dir (fst (splitext (basename source)) @ ''_chunks''))
                   (path_join temp_dir (fst (splitext (basename source)) @ ''.wav'')) (fst st)
                 \<and> (\<exists>j. outcome = Summary j)"
      then have f: "files' = clean_up w chunks_dir audio_path (fst st)"
        by (simp add: chunks_dir_def audio_path_def video_name_def)
      have c: "chunks_dir \<in> fst st"
        using late(3) by (simp add: chunks_dir_def video_name_def)
      have t: "temp_dir \<in> files'"
        unfolding f using late(2) ne np by (intro clean_up_keeps) auto
      have gone: "chunks_dir \<notin> files' \<and> (\<forall>q \<in> files'. \<not> prefix (chunks_dir @ ''/'') q)
                  \<and> audio_path \<notin> files'"
        if "rmtree_raises w chunks_dir = None" and "remove_raises w audio_path = None"
        unfolding f using clean_up_removes[OF c that] by auto
      show ?thesis
      proof (intro conjI allI impI)
        show "temp_dir \<in> files'" by (rule t)
      next
        fix j source'
        assume "if is_url then fst (fetch w video_path temp_dir (insert temp_dir files)) = Inr source'
                else source' = video_path"
          and r: "rmtree_raises w (path_join temp_dir (fst (splitext (basename source')) @ ''_chunks''))
                  = None"
          and m: "remove_raises w (path_join temp_dir (fst (splitext (basename source')) @ ''.wav''))
                  = None"
        then have s: "source' = source" using only by blast
        from gone r m
        show "path_join temp_dir (fst (splitext (basename source')) @ ''_chunks'') \<notin> files'"
          and "\<forall>q \<in> files'.
                 \<not> prefix (path_join temp_dir (fst (splitext (basename source')) @ ''_chunks'') @ ''/'') q"
          and "path_join temp_dir (fst (splitext (basename source')) @ ''.wav'') \<notin> files'"
          unfolding s chunks_dir_def audio_path_def video_name_def by blast+
      qed
    qed
  qed
qed

lemma process_audio_chunk_text:
  assumes "getenv w ''OPENAI_API_KEY'' = Some api_key" and "api_key \<noteq> []"
    and "whisper w api_key chunk_path = WhisperText t"
    and "load_audio w chunk_path = Inr a" and "raw_size a \<le> upload_limit"
  shows "process_audio_chunk w tmp chunk_path st
         = (\<lparr>chunk_id = fst (splitext (basename chunk_path)), file_name = basename chunk_path,
             error = None, transcript = Some t\<rparr>, fst st, snd st @ [WhisperPost api_key chunk_path])"
  using assms
  by (simp add: process_audio_chunk_def audio_to_text_single_call_def
      transcribe_with_openai_whisper_def)

lemma example_small: "raw_size \<lparr>len_ms = 150000, raw_size = 4800000\<rparr> \<le> upload_limit"
  by (simp add: upload_limit_def)

lemma example_merge:
  "merge_transcripts [\<lparr>chunk_id = ''talk_chunk_0'', file_name = ''talk_chunk_0.wav'',
                        error = None, transcript = Some ''hello''\<rparr>] = Inr ''hello''"
  "merge_transcripts [\<lparr>chunk_id = ''talk_chunk_0'', file_name = ''talk_chunk_0.wav'',
                        error = None, transcript = Some []\<rparr>] = Inl NoTranscript"
  by (simp_all add: eval_merge)

lemma example_clean_up:
  "clean_up example_world ''t/talk_chunks'' ''t/talk.wav''
     {''t/talk_chunks/talk_chunk_0.wav'', ''t/talk_chunks'', ''t/talk.wav'', ''t'', ''talk.mp4''}
   = {''t'', ''talk.mp4''}"
  by (auto simp: clean_up_def rmtree_def remove_file_def Let_def example_world_def)

lemma example_clean_up_fails:
  "clean_up (example_world\<lparr>rmtree_raises := \<lambda>p. Some (\<lambda>q. True)\<rparr>) ''t/talk_chunks''
     ''t/talk.wav''
     {''t/talk_chunks/talk_chunk_0.wav'', ''t/talk_chunks'', ''t/talk.wav'', ''t'', ''talk.mp4''}
   = {''t/talk_chunks/talk_chunk_0.wav'', ''t/talk_chunks'', ''t/talk.wav'', ''t'', ''talk.mp4''}"
  by (auto simp: clean_up_def)

lemma example_run_with_key:
  assumes "\<And>command. ffmpeg w command = None"
    and "\<And>p. load_audio w p = Inr \<lparr>len_ms = 150000, raw_size = 4800000\<rparr>"
    and "getenv w ''OPENAI_API_KEY'' = Some api_key" and "api_key \<noteq> []"
    and "\<And>p. whisper w api_key p = WhisperText ''hello''"
  shows "transcribe_and_summarize_video w ''talk.mp4'' ''t'' None 5 150 False {''talk.mp4''}
         = summarize w ''t/talk_chunks'' ''t/talk.wav'' ''hello''
             ({''t/talk_chunks/talk_chunk_0.wav'', ''t/talk_chunks'', ''t/talk.wav'', ''t'',
               ''talk.mp4''},
              [WhisperPost api_key ''t/talk_chunks/talk_chunk_0.wav''])"
  using process_audio_chunk_text[OF assms(3,4) assms(5) assms(2) example_small,
      where chunk_path = "''t/talk_chunks/talk_chunk_0.wav''" and tmp = "''t''"]
  by (simp add: example_run[OF assms(1,2)] example_names assemble_and_summarize_def example_merge)

lemma example_run_without_key:
  assumes "\<And>command. ffmpeg w command = None"
    and "\<And>p. load_audio w p = Inr \<lparr>len_ms = 150000, raw_size = 4800000\<rparr>"
    and "getenv w ''OPENAI_API_KEY'' = None"
  shows "transcribe_and_summarize_video w ''talk.mp4'' ''t'' None 5 150 False {''talk.mp4''}
         = (Error NoTranscript,
            {''t/talk_chunks/talk_chunk_0.wav'', ''t/talk_chunks'', ''t/talk.wav'', ''t'',
             ''talk.mp4''}, [])"
proof -
  have "\<not> truthy (getenv w ''OPENAI_API_KEY'')" using assms(3) by (simp add: truthy_def)
  from process_audio_chunk_without_key[OF this assms(2) example_small,
      where chunk_path = "''t/talk_chunks/talk_chunk_0.wav''" and tmp = "''t''"]
  show ?thesis
    by (simp add: example_run[OF assms(1,2)] example_names assemble_and_summarize_def example_merge)
qed

lemma example_world_facts:
  "\<And>command. ffmpeg example_world command = None"
  "\<And>p. load_audio example_world p = Inr \<lparr>len_ms = 150000, raw_size = 4800000\<rparr>"
  "getenv example_world ''OPENAI_API_KEY'' = Some ''sk-example''"
  "\<And>p. whisper example_world ''sk-example'' p = WhisperText ''hello''"
  "\<And>data. chat example_world ''sk-example'' data = ChatContent ''{}''"
  "json_loads example_world ''{}'' = Some ''{}''"
  by (simp_all add: example_world_def)

lemma example_success:
  "transcribe_and_summarize_video example_world ''talk.mp4'' ''t'' None 5 150 False {''talk.mp4''}
   = (Summary ''{}'', {''t'', ''talk.mp4''},
      [WhisperPost ''sk-example'' ''t/talk_chunks/talk_chunk_0.wav'',
       ChatPost ''sk-example'' (request_body ''hello'')])"
  by (simp add: example_run_with_key[OF example_world_facts(1,2,3) _ example_world_facts(4)]
      summarize_def truthy_def example_world_facts example_clean_up Let_def)

lemma example_failed_clean_up:
  "transcribe_and_summarize_video (example_world\<lparr>rmtree_raises := \<lambda>p. Some (\<lambda>q. True)\<rparr>)
     ''talk.mp4'' ''t'' None 5 150 False {''talk.mp4''}
   = (Summary ''{}'',
      {''t/talk_chunks/talk_chunk_0.wav'', ''t/talk_chunks'', ''t/talk.wav'', ''t'', ''talk.mp4''},
      [WhisperPost ''sk-example'' ''t/talk_chunks/talk_chunk_0.wav'',
       ChatPost ''sk-example'' (request_body ''hello'')])"
proof -
  let ?w = "example_world\<lparr>rmtree_raises := \<lambda>p. Some (\<lambda>q. True)\<rparr>"
  have f: "\<And>command. ffmpeg ?w command = None"
    "\<And>p. load_audio ?w p = Inr \<lparr>len_ms = 150000, raw_size = 4800000\<rparr>"
    "getenv ?w ''OPENAI_API_KEY'' = Some ''sk-example''"
    "\<And>p. whisper ?w ''sk-example'' p = WhisperText ''hello''"
    "\<And>data. chat ?w ''sk-example'' data = ChatContent ''{}''"
    "json_loads ?w ''{}'' = Some ''{}''"
    by (simp_all add: example_world_def)
  show ?thesis
    by (simp add: example_run_with_key[OF f(1,2,3) _ f(4)] summarize_def truthy_def f
        example_world_facts example_clean_up_fails Let_def)
qed

lemma example_without_credential:
  "transcribe_and_summarize_video (example_world\<lparr>getenv := \<lambda>k. None\<rparr>) ''talk.mp4'' ''t'' None 5 150
     False {''talk.mp4''}
   = (Error NoTranscript,
      {''t/talk_chunks/talk_chunk_0.wav'', ''t/talk_chunks'', ''t/talk.wav'', ''t'', ''talk.mp4''},
      [])"
  by (rule example_run_without_key) (simp_all add: example_world_def)

lemma example_unparsable:
  "transcribe_and_summarize_video (example_world\<lparr>json_loads := \<lambda>text. None\<rparr>) ''talk.mp4'' ''t''
     None 5 150 False {''talk.mp4''}
   = (ParseError ''{}'',
      {''t/talk_chunks/talk_chunk_0.wav'', ''t/talk_chunks'', ''t/talk.wav'', ''t'', ''talk.mp4''},
      [WhisperPost ''sk-example'' ''t/talk_chunks/talk_chunk_0.wav'',
       ChatPost ''sk-example'' (request_body ''hello'')])"
proof -
  let ?w = "example_world\<lparr>json_loads := \<lambda>text. None\<rparr>"
  have f: "\<And>command. ffmpeg ?w command = None"
    "\<And>p. load_audio ?w p = Inr \<lparr>len_ms = 150000, raw_size = 4800000\<rparr>"
    "getenv ?w ''OPENAI_API_KEY'' = Some ''sk-example''"
    "\<And>p. whisper ?w ''sk-example'' p = WhisperText ''hello''"
    "\<And>data. chat ?w ''sk-example'' data = ChatContent ''{}''"
    by (simp_all add: example_world_def)
  show ?thesis
    by (simp add: example_run_with_key[OF f(1,2,3) _ f(4)] summarize_def truthy_def
        example_world_facts Let_def)
qed

theorem unparsable_summary_is_returned_raw_witness:
  "ChatPost ''sk-example'' (request_body ''hello'')
     \<in> set (snd (snd (transcribe_and_summarize_video (example_world\<lparr>json_loads := \<lambda>text. None\<rparr>)
                        ''talk.mp4'' ''t'' None 5 150 False {''talk.mp4''})))
   \<and> chat (example_world\<lparr>json_loads := \<lambda>text. None\<rparr>) ''sk-example'' (request_body ''hello'')
     = ChatContent ''{}''
   \<and> json_loads (example_world\<lparr>json_loads := \<lambda>text. None\<rparr>) ''{}'' = None
   \<and> fst (transcribe_and_summarize_video (example_world\<lparr>json_loads := \<lambda>text. None\<rparr>)
           ''talk.mp4'' ''t'' None 5 150 False {''talk.mp4''})
     = ParseError ''{}''"
proof -
  let ?w = "example_world\<lparr>json_loads := \<lambda>text. None\<rparr>"
  let ?run = "transcribe_and_summarize_video ?w ''talk.mp4'' ''t'' None 5 150 False {''talk.mp4''}"
  have h1: "?run = (fst ?run, fst (snd ?run), snd (snd ?run))" by simp
  have h2: "ChatPost ''sk-example'' (request_body ''hello'') \<in> set (snd (snd ?run))"
    by (simp add: example_unparsable)
  have h3: "chat ?w ''sk-example'' (request_body ''hello'') = ChatContent ''{}''"
    by (simp add: example_world_def)
  have h4: "json_loads ?w ''{}'' = None" by simp
  from unparsable_summary_is_returned_raw[OF h1 h2 h3 h4] h2 h3 h4 show ?thesis by blast
qed

theorem temp_dir_outlives_the_call_witness:
  "''t'' \<noteq> []
   \<and> fst (transcribe_and_summarize_video example_world ''talk.mp4'' ''t'' None 5 150 False
            {''talk.mp4''}) = Summary ''{}''
   \<and> rmtree_raises example_world ''t/talk_chunks'' = None
   \<and> remove_raises example_world ''t/talk.wav'' = None
   \<and> ''t'' \<in> fst (snd (transcribe_and_summarize_video example_world ''talk.mp4'' ''t'' None 5 150
                          False {''talk.mp4''}))
   \<and> ''t/talk_chunks'' \<notin> fst (snd (transcribe_and_summarize_video example_world ''talk.mp4'' ''t''
                                      None 5 150 False {''talk.mp4''}))
   \<and> ''t/talk.wav'' \<notin> fst (snd (transcribe_and_summarize_video example_world ''talk.mp4'' ''t''
                                   None 5 150 False {''talk.mp4''}))"
proof -
  let ?run = "transcribe_and_summarize_video example_world ''talk.mp4'' ''t'' None 5 150 False
                {''talk.mp4''}"
  have h1: "?run = (fst ?run, fst (snd ?run), snd (snd ?run))" by simp
  have h2: "''t'' \<noteq> []" by simp
  have out: "fst ?run = Summary ''{}''" by (simp add: example_success)
  have h3: "rmtree_raises example_world
              (path_join ''t'' (fst (splitext (basename ''talk.mp4'')) @ ''_chunks'')) = None"
    and h4: "remove_raises example_world
              (path_join ''t'' (fst (splitext (basename ''talk.mp4'')) @ ''.wav'')) = None"
    by (simp_all add: example_world_def)
  from temp_dir_outlives_the_call[OF h1 h2] out h3 h4
  have "''t'' \<in> fst (snd ?run)"
    and "path_join ''t'' (fst (splitext (basename ''talk.mp4'')) @ ''_chunks'') \<notin> fst (snd ?run)"
    and "path_join ''t'' (fst (splitext (basename ''talk.mp4'')) @ ''.wav'') \<notin> fst (snd ?run)"
    by auto
  then show ?thesis using out by (simp add: example_names example_world_def)
qed

text \<open>
  The claim as stated fails on both kinds of exit. After a call that returns a summary
  the directory \<^verbatim>\<open>t\<close> is still there; after a call that fails because nothing was
  transcribed, the audio file and the chunks are still there too; and a call whose
  \<^verbatim>\<open>shutil.rmtree\<close> raises returns its summary all the same and leaves the audio file and
  the chunks.
\<close>

theorem temp_dir_is_left_behind:
  "transcribe_and_summarize_video example_world ''talk.mp4'' ''t'' None 5 150 False {''talk.mp4''}
   = (Summary ''{}'', {''t'', ''talk.mp4''},
      [WhisperPost ''sk-example'' ''t/talk_chunks/talk_chunk_0.wav'',
       ChatPost ''sk-example'' (request_body ''hello'')])
   \<and> transcribe_and_summarize_video (example_world\<lparr>getenv := \<lambda>k. None\<rparr>) ''talk.mp4'' ''t'' None
       5 150 False {''talk.mp4''}
   = (Error NoTranscript,
      {''t/talk_chunks/talk_chunk_0.wav'', ''t/talk_chunks'', ''t/talk.wav'', ''t'', ''talk.mp4''},
      [])
   \<and> transcribe_and_summarize_video (example_world\<lparr>rmtree_raises := \<lambda>p. Some (\<lambda>q. True)\<rparr>)
       ''talk.mp4'' ''t'' None 5 150 False {''talk.mp4''}
   = (Summary ''{}'',
      {''t/talk_chunks/talk_chunk_0.wav'', ''t/talk_chunks'', ''t/talk.wav'', ''t'', ''talk.mp4''},
      [WhisperPost ''sk-example'' ''t/talk_chunks/talk_chunk_0.wav'',
       ChatPost ''sk-example'' (request_body ''hello'')])"
  using example_success example_without_credential example_failed_clean_up by simp

text \<open>
  C9 at two calls with the same arguments: the function has no parameter for the
  credential, and the call whose process environment holds \<^verbatim>\<open>OPENAI_API_KEY\<close> returns a
  summary while the call whose environment does not hold it fails.
\<close>

theorem outcome_depends_on_environment:
  "''credential'' \<notin> set parameters \<and> ''api_key'' \<notin> set parameters
   \<and> fst (transcribe_and_summarize_video example_world ''talk.mp4'' ''t'' None 5 150 False
            {''talk.mp4''}) = Summary ''{}''
   \<and> fst (transcribe_and_summarize_video (example_world\<lparr>getenv := \<lambda>k. None\<rparr>) ''talk.mp4'' ''t''
            None 5 150 False {''talk.mp4''}) = Error NoTranscript"
  by (simp add: example_success example_without_credential parameters_def)

lemma summarize_posts_request_body:
  assumes "summarize w chunks_dir audio_path full_transcript (files, []) = (outcome, files', requests)"
    and "ChatPost api_key data \<in> set requests"
  shows "data = request_body full_transcript"
  using summarize_chat_post[OF _ assms] by simp

text \<open>
  C8. There are a fixed text before and a fixed text after, such that, for every
  transcript, the user message of the chat-completion request that the summarizer
  sends is the first text, the transcript as it is, and the second text.
\<close>

theorem summarizer_embeds_transcript:
  "\<exists>head tail. \<forall>w chunks_dir audio_path full_transcript files outcome files' requests api_key data.
     summarize w chunks_dir audio_path full_transcript (files, []) = (outcome, files', requests)
     \<longrightarrow> ChatPost api_key data \<in> set requests
     \<longrightarrow> messages data = [(''system'', system_prompt), (''user'', head @ full_transcript @ tail)]"
proof -
  obtain head tail where ht: "\<And>t. user_prompt t = head @ t @ tail"
    unfolding user_prompt_def by blast
  have "messages data = [(''system'', system_prompt), (''user'', head @ full_transcript @ tail)]"
    if "summarize w chunks_dir audio_path full_transcript (files, []) = (outcome, files', requests)"
      and "ChatPost api_key data \<in> set requests"
    for w :: "'a world" and chunks_dir audio_path full_transcript files outcome files' requests
      api_key data
    using summarize_posts_request_body[OF that] by (simp add: request_body_def ht)
  then show ?thesis by blast
qed


theorem summarizer_embeds_transcript_witness:
  "\<exists>head tail.
     ChatPost ''sk-example'' (request_body ''good morning'')
       \<in> set (snd (snd (summarize example_world ''t/talk_chunks'' ''t/talk.wav'' ''good morning''
                          ({''t''}, []))))
     \<and> messages (request_body ''good morning'')
         = [(''system'', system_prompt), (''user'', head @ ''good morning'' @ tail)]"
proof -
  let ?run = "summarize example_world ''t/talk_chunks'' ''t/talk.wav'' ''good morning'' ({''t''}, [])"
  have h1: "?run = (fst ?run, fst (snd ?run), snd (snd ?run))" by simp
  have h2: "ChatPost ''sk-example'' (request_body ''good morning'') \<in> set (snd (snd ?run))"
    by (simp add: summarize_def truthy_def example_world_facts Let_def)
  from summarizer_embeds_transcript obtain head tail where
    "\<forall>w chunks_dir audio_path full_transcript files outcome files' requests api_key data.
       summarize (w :: string world) chunks_dir audio_path full_transcript (files, [])
         = (outcome, files', requests)
       \<longrightarrow> ChatPost api_key data \<in> set requests
       \<longrightarrow> messages data = [(''system'', system_prompt), (''user'', head @ full_transcript @ tail)]"
    by blast
  with h1 h2 have "messages (request_body ''good morning'')
         = [(''system'', system_prompt), (''user'', head @ ''good morning'' @ tail)]"
    by blast
  with h2 show ?thesis by blast
qed

end
